theory Spec2Isabelle
  imports Main
begin

section \<open>Python values, strings and exceptions\<close>

text \<open>
  The bot is written in Python (\<^verbatim>\<open>src/bot.py\<close>). A Python \<^verbatim>\<open>str\<close> is modelled as a
  \<^typ>\<open>string\<close>; one \<^typ>\<open>char\<close> stands for one code point in the range U+0000 to
  U+00FF, so \<^const>\<open>length\<close> counts code points as \<^verbatim>\<open>len\<close> does. The values found in the
  dictionaries the bot handles (the engine's raw record, the normalised \<^verbatim>\<open>video_info\<close>)
  are dynamically typed: a field may hold \<^verbatim>\<open>None\<close>, an integer or a string.
\<close>

datatype pyval = PNone | PInt int | PStr string

text \<open>A \<^verbatim>\<open>dict\<close> with string keys, in insertion order.\<close>

type_synonym pydict = "(string \<times> pyval) list"

text \<open>
  \<^verbatim>\<open>d.get(key, default)\<close>: the default is returned only when the key is absent; a key that
  is present with the value \<^verbatim>\<open>None\<close> yields \<^verbatim>\<open>None\<close>.
\<close>

definition dict_get :: "pydict \<Rightarrow> string \<Rightarrow> pyval \<Rightarrow> pyval" where
  "dict_get d key dflt = (case map_of d key of None \<Rightarrow> dflt | Some v \<Rightarrow> v)"

text \<open>
  The exceptions that matter here, all subclasses of \<^verbatim>\<open>Exception\<close> (the only ones an
  \<^verbatim>\<open>except Exception\<close> clause catches). \<open>EngineError\<close> stands for anything that yt-dlp raises.
\<close>

datatype exn = TypeError | AttributeError | OSError | EngineError string

text \<open>\<^verbatim>\<open>s.startswith(p)\<close> and \<^verbatim>\<open>s.endswith(e)\<close>.\<close>

definition startswith :: "string \<Rightarrow> string \<Rightarrow> bool" where
  "startswith s p = (take (length p) s = p)"

definition endswith :: "string \<Rightarrow> string \<Rightarrow> bool" where
  "endswith s e = (length e \<le> length s \<and> drop (length s - length e) s = e)"

text \<open>
  \<^verbatim>\<open>str.isspace\<close> on the code points below 256, and \<^verbatim>\<open>s.strip()\<close>, which removes the
  whitespace at both ends.
\<close>

definition isspace :: "char \<Rightarrow> bool" where
  "isspace c = (c \<in> set [CHR 0x09, CHR 0x0A, CHR 0x0B, CHR 0x0C, CHR 0x0D, CHR 0x1C,
                         CHR 0x1D, CHR 0x1E, CHR 0x1F, CHR 0x20, CHR 0x85, CHR 0xA0])"

definition strip :: "string \<Rightarrow> string" where
  "strip s = rev (dropWhile isspace (rev (dropWhile isspace s)))"

text \<open>\<^verbatim>\<open>s.replace(old, new)\<close> for one-character \<^verbatim>\<open>old\<close> and \<^verbatim>\<open>new\<close>.\<close>

definition str_replace :: "string \<Rightarrow> char \<Rightarrow> char \<Rightarrow> string" where
  "str_replace s old new = map (\<lambda>c. if c = old then new else c) s"

text \<open>
  \<^verbatim>\<open>os.path.join(a, b)\<close> for two components, as \<^verbatim>\<open>posixpath\<close> defines it.
\<close>

definition path_join :: "string \<Rightarrow> string \<Rightarrow> string" where
  "path_join a b =
     (if startswith b ''/'' then b
      else if a = [] \<or> endswith a ''/'' then a @ b
      else a @ ''/'' @ b)"

section \<open>Filename sanitizer (\<^verbatim>\<open>YouTubeBot.sanitize_filename\<close>)\<close>

text \<open>The string \<^verbatim>\<open>'<>:"/\\|?*'\<close>: \<open>CHR 0x22\<close> is the double quote, \<open>CHR 0x5C\<close> the backslash.\<close>

definition invalid_chars :: string where
  "invalid_chars = [CHR ''<'', CHR ''>'', CHR '':'', CHR 0x22, CHR ''/'', CHR 0x5C,
                    CHR ''|'', CHR ''?'', CHR ''*'']"

definition sanitize_filename :: "string \<Rightarrow> string" where
  "sanitize_filename filename =
     (let filename = foldl (\<lambda>f char. str_replace f char CHR ''_'') filename invalid_chars;
          filename = (if length filename > 100 then take 100 filename else filename)
      in strip filename)"

section \<open>URL classifier (\<^verbatim>\<open>YouTubeBot.is_youtube_url\<close>)\<close>

text \<open>
  The regular expressions of \<^verbatim>\<open>youtube_patterns\<close> use literals, optional groups,
  concatenation, \<^verbatim>\<open>[\w-]+\<close> and \<^verbatim>\<open>.*\<close>. \<open>rmatch r s\<close> lists, in the order in which a
  backtracking matcher tries them (greedy first), the rests of \<open>s\<close> that remain after \<open>r\<close>
  has matched at the start of \<open>s\<close>. \<^verbatim>\<open>re.match(pattern, url)\<close> anchors at the start of the
  string only and returns a match object, which is truthy, exactly when some way of matching
  exists.
\<close>

datatype regex =
    Lit string
  | Opt regex
  | Seq regex regex
  | Plus "char \<Rightarrow> bool"
  | Star "char \<Rightarrow> bool"

fun greedy :: "(char \<Rightarrow> bool) \<Rightarrow> string \<Rightarrow> string list" where
  "greedy p [] = [[]]"
| "greedy p (c # s) = (if p c then greedy p s @ [c # s] else [c # s])"

fun rmatch :: "regex \<Rightarrow> string \<Rightarrow> string list" where
  "rmatch (Lit l) s = (if startswith s l then [drop (length l) s] else [])"
| "rmatch (Opt r) s = rmatch r s @ [s]"
| "rmatch (Seq r1 r2) s = concat (map (rmatch r2) (rmatch r1 s))"
| "rmatch (Plus p) s = (case s of [] \<Rightarrow> [] | c # s' \<Rightarrow> if p c then greedy p s' else [])"
| "rmatch (Star p) s = greedy p s"

definition re_match :: "regex \<Rightarrow> string \<Rightarrow> bool" where
  "re_match pattern s = (rmatch pattern s \<noteq> [])"

text \<open>
  \<^verbatim>\<open>\w\<close> in a \<^verbatim>\<open>str\<close> pattern: the code points that are alphanumeric in Unicode, and the
  underscore. Below 256 these are the ASCII letters and digits, the underscore, and the
  Latin-1 letters, superscript digits and fractions. \<^verbatim>\<open>.\<close> is any character but the newline.
\<close>

definition word_char :: "char \<Rightarrow> bool" where
  "word_char c =
     (let n = (of_char c :: nat) in
        (48 \<le> n \<and> n \<le> 57) \<or> (65 \<le> n \<and> n \<le> 90) \<or> n = 95 \<or> (97 \<le> n \<and> n \<le> 122) \<or>
        n \<in> set [0xAA, 0xB2, 0xB3, 0xB5, 0xB9, 0xBA, 0xBC, 0xBD, 0xBE] \<or>
        (0xC0 \<le> n \<and> n \<le> 0xD6) \<or> (0xD8 \<le> n \<and> n \<le> 0xF6) \<or> 0xF8 \<le> n)"

definition id_char :: "char \<Rightarrow> bool" where
  "id_char c = (word_char c \<or> c = CHR ''-'')"

definition any_char :: "char \<Rightarrow> bool" where
  "any_char c = (c \<noteq> CHR 0x0A)"

text \<open>A pattern is the concatenation of its parts, read from left to right.\<close>

definition cat :: "regex \<Rightarrow> regex list \<Rightarrow> regex" where
  "cat r rs = foldl Seq r rs"

text \<open>\<^verbatim>\<open>(?:https?://)?\<close>\<close>

definition scheme :: regex where
  "scheme = Opt (Seq (Seq (Lit ''http'') (Opt (Lit ''s''))) (Lit ''://''))"

definition youtube_patterns :: "regex list" where
  "youtube_patterns =
     [cat scheme [Opt (Lit ''www.''), Lit ''youtube.com/watch?v='', Plus id_char],
      cat scheme [Opt (Lit ''www.''), Lit ''youtu.be/'', Plus id_char],
      cat scheme [Opt (Lit ''m.''), Lit ''youtube.com/watch?v='', Plus id_char],
      cat scheme [Opt (Lit ''www.''), Lit ''youtube.com/shorts/'', Plus id_char],
      cat scheme [Opt (Lit ''m.''), Lit ''youtube.com/shorts/'', Plus id_char],
      cat scheme [Opt (Lit ''www.''), Lit ''youtube.com/watch?v='', Plus id_char,
                  Opt (Seq (Lit ''&'') (Star any_char))],
      cat scheme [Opt (Lit ''www.''), Lit ''youtube.com/shorts/'', Plus id_char,
                  Opt (Seq (Lit ''?'') (Star any_char))]]"

definition is_youtube_url :: "string \<Rightarrow> bool" where
  "is_youtube_url url = list_ex (\<lambda>pattern. re_match pattern url) youtube_patterns"

subsection \<open>The URL shapes, as the specification words them\<close>

text \<open>
  A supported URL starts with an optional scheme, then one of the host-and-path shapes
  (watch link, short-link domain, mobile subdomain, shorts path), then a video id of at
  least one character; anything may follow.
\<close>

definition schemes :: "string list" where
  "schemes = ['''', ''http://'', ''https://'']"

definition host_paths :: "string list" where
  "host_paths =
     [''youtube.com/watch?v='', ''www.youtube.com/watch?v='', ''m.youtube.com/watch?v='',
      ''youtu.be/'', ''www.youtu.be/'',
      ''youtube.com/shorts/'', ''www.youtube.com/shorts/'', ''m.youtube.com/shorts/'']"

definition has_shape :: "string \<Rightarrow> string \<Rightarrow> bool" where
  "has_shape p url = (startswith url p \<and> list_ex id_char (take 1 (drop (length p) url)))"

definition supported_url :: "string \<Rightarrow> bool" where
  "supported_url url =
     list_ex (\<lambda>s. list_ex (\<lambda>h. has_shape (s @ h) url) host_paths) schemes"

section \<open>Metadata resolver (\<^verbatim>\<open>YouTubeBot.get_video_info\<close>)\<close>

text \<open>
  An options dictionary of the engine. The engine is external: \<open>extract_info\<close> gives, for
  a configuration and a URL, what \<^verbatim>\<open>YoutubeDL(ydl_opts).extract_info(url, download=False)\<close>
  does: it raises, or it returns a record, or it returns \<^verbatim>\<open>None\<close>.
\<close>

datatype optval =
    OBool bool
  | OStr string
  | OHeaders "(string \<times> string) list"
  | OPostprocessors "(string \<times> string) list list"

type_synonym ydl_opts = "(string \<times> optval) list"

type_synonym extractor = "ydl_opts \<Rightarrow> string \<Rightarrow> exn + pydict option"

definition user_agent :: string where
  "user_agent = ''Mozilla/5.0 (Windows NT 10.0; Win64; x64) AppleWebKit/537.36 (KHTML, like Gecko) Chrome/91.0.4472.124 Safari/537.36''"

definition ydl_opts_list :: "ydl_opts list" where
  "ydl_opts_list =
     [[(''quiet'', OBool True), (''no_warnings'', OBool True), (''extract_flat'', OBool False)],
      [(''quiet'', OBool True), (''no_warnings'', OBool True), (''extract_flat'', OBool False),
       (''nocheckcertificate'', OBool True)],
      [(''quiet'', OBool True), (''no_warnings'', OBool True), (''extract_flat'', OBool False),
       (''nocheckcertificate'', OBool True),
       (''http_headers'', OHeaders [(''User-Agent'', user_agent)])],
      [(''quiet'', OBool True), (''no_warnings'', OBool True), (''extract_flat'', OBool False),
       (''nocheckcertificate'', OBool True), (''prefer_insecure'', OBool True)]]"

text \<open>The dictionary literal that \<^verbatim>\<open>get_video_info\<close> returns on success (lines 142 to 151).\<close>

definition video_info_of :: "string \<Rightarrow> pydict \<Rightarrow> pydict" where
  "video_info_of url info =
     [(''title'', dict_get info ''title'' (PStr ''Unknown'')),
      (''uploader'', dict_get info ''uploader'' (PStr ''Unknown'')),
      (''duration'', dict_get info ''duration'' (PInt 0)),
      (''like_count'', dict_get info ''like_count'' (PInt 0)),
      (''view_count'', dict_get info ''view_count'' (PInt 0)),
      (''url'', PStr url),
      (''id'', dict_get info ''id'' (PStr '''')),
      (''thumbnail'', dict_get info ''thumbnail'' (PStr ''''))]"

text \<open>
  The loop over the strategies. The result pairs the configurations the engine was invoked
  with, in the order of the invocations, with the value returned. An exception of the
  engine is caught by the inner \<^verbatim>\<open>except Exception\<close> and the loop continues; when the engine
  returns \<^verbatim>\<open>None\<close>, \<^verbatim>\<open>info.get\<close> raises \<^verbatim>\<open>AttributeError\<close> inside the same \<^verbatim>\<open>try\<close>, with the
  same effect.
\<close>

fun try_strategies :: "extractor \<Rightarrow> string \<Rightarrow> ydl_opts list \<Rightarrow> ydl_opts list \<times> pydict option" where
  "try_strategies extract_info url [] = ([], None)"
| "try_strategies extract_info url (ydl_opts # rest) =
     (case extract_info ydl_opts url of
        Inr (Some info) \<Rightarrow> ([ydl_opts], Some (video_info_of url info))
      | Inr None \<Rightarrow>
          (case try_strategies extract_info url rest of (tried, r) \<Rightarrow> (ydl_opts # tried, r))
      | Inl strategy_error \<Rightarrow>
          (case try_strategies extract_info url rest of (tried, r) \<Rightarrow> (ydl_opts # tried, r)))"

definition get_video_info :: "extractor \<Rightarrow> string \<Rightarrow> ydl_opts list \<times> pydict option" where
  "get_video_info extract_info url = try_strategies extract_info url ydl_opts_list"

text \<open>A configuration succeeds when the engine returns a record for it.\<close>

definition succeeds :: "extractor \<Rightarrow> string \<Rightarrow> ydl_opts \<Rightarrow> bool" where
  "succeeds extract_info url ydl_opts =
     (case extract_info ydl_opts url of Inr (Some info) \<Rightarrow> True | _ \<Rightarrow> False)"

section \<open>Download orchestrator (\<^verbatim>\<open>download_video\<close>, \<^verbatim>\<open>download_audio\<close>)\<close>

text \<open>
  What the download operations consult outside the program: whether \<^verbatim>\<open>shutil.which('ffmpeg')\<close>
  finds the transcoder, what \<^verbatim>\<open>YoutubeDL(ydl_opts).download([url])\<close> does (\<open>None\<close> when it
  returns, the exception when it raises), what \<^verbatim>\<open>os.listdir\<close> gives afterwards, and, for
  \<^verbatim>\<open>download_and_send\<close>, the temporary directory, \<^verbatim>\<open>os.path.exists\<close>, and the outcome of
  opening the file and sending it.
\<close>

record env =
  which_ffmpeg :: "string option"
  ydl_download :: "ydl_opts \<Rightarrow> pyval \<Rightarrow> exn option"
  listdir :: "string \<Rightarrow> exn + string list"
  temporary_directory :: "exn + string"
  path_exists :: "string \<Rightarrow> bool"
  send_file :: "string \<Rightarrow> string \<Rightarrow> exn option"

definition audio_extensions :: "string list" where
  "audio_extensions = [''.mp3'', ''.m4a'', ''.webm'', ''.ogg'', ''.aac'', ''.opus'']"

text \<open>
  The parameters \<^verbatim>\<open>url\<close> and \<^verbatim>\<open>title\<close> are annotated \<^verbatim>\<open>str\<close>, but they are values read from
  the \<^verbatim>\<open>video_info\<close> dictionary. \<^verbatim>\<open>sanitize_filename\<close> is called inside the \<^verbatim>\<open>try\<close> block:
  on a title that is not a string, \<^verbatim>\<open>filename.replace\<close> raises \<^verbatim>\<open>AttributeError\<close>, which the
  \<^verbatim>\<open>except Exception\<close> clause turns into \<^verbatim>\<open>(False, None)\<close>, as it does with every exception
  of the engine and of \<^verbatim>\<open>os.listdir\<close>. A \<^verbatim>\<open>for\<close> loop that returns at the first entry that
  passes a test is \<^const>\<open>find\<close>.
\<close>

definition download_video :: "env \<Rightarrow> pyval \<Rightarrow> string \<Rightarrow> pyval \<Rightarrow> bool \<times> string option" where
  "download_video e url output_dir title =
     (case title of
        PStr t \<Rightarrow>
          (let safe_title = sanitize_filename t;
               output_path = path_join output_dir (safe_title @ ''.%(ext)s'');
               ydl_opts = [(''format'', OStr ''best[ext=mp4]/mp4/best''),
                           (''outtmpl'', OStr output_path),
                           (''quiet'', OBool True),
                           (''no_warnings'', OBool True),
                           (''nocheckcertificate'', OBool True)]
           in case ydl_download e ydl_opts url of
                Some err \<Rightarrow> (False, None)
              | None \<Rightarrow>
                  (case listdir e output_dir of
                     Inl err \<Rightarrow> (False, None)
                   | Inr files \<Rightarrow>
                       (case find (\<lambda>file. startswith file safe_title) files of
                          Some file \<Rightarrow> (True, Some (path_join output_dir file))
                        | None \<Rightarrow> (False, None))))
      | _ \<Rightarrow> (False, None))"

definition download_audio :: "env \<Rightarrow> pyval \<Rightarrow> string \<Rightarrow> pyval \<Rightarrow> bool \<times> string option" where
  "download_audio e url output_dir title =
     (case title of
        PStr t \<Rightarrow>
          (let safe_title = sanitize_filename t;
               output_path = path_join output_dir (safe_title @ ''.%(ext)s'');
               ffmpeg_path = which_ffmpeg e;
               (ydl_opts, expected_extension) =
                 (if ffmpeg_path \<noteq> None \<and> ffmpeg_path \<noteq> Some []
                  then ([(''format'', OStr ''bestaudio/best''),
                         (''outtmpl'', OStr output_path),
                         (''postprocessors'',
                            OPostprocessors [[(''key'', ''FFmpegExtractAudio''),
                                              (''preferredcodec'', ''mp3''),
                                              (''preferredquality'', ''192'')]]),
                         (''quiet'', OBool False),
                         (''nocheckcertificate'', OBool True)],
                        Some ''.mp3'')
                  else ([(''format'', OStr ''bestaudio[ext=m4a]/bestaudio[ext=webm]/bestaudio/best''),
                         (''outtmpl'', OStr output_path),
                         (''quiet'', OBool False),
                         (''nocheckcertificate'', OBool True)],
                        None))
           in case ydl_download e ydl_opts url of
                Some err \<Rightarrow> (False, None)
              | None \<Rightarrow>
                  (case listdir e output_dir of
                     Inl err \<Rightarrow> (False, None)
                   | Inr files_found \<Rightarrow>
                       (case (case expected_extension of
                                Some ext \<Rightarrow>
                                  find (\<lambda>file. startswith file safe_title \<and> endswith file ext)
                                    files_found
                              | None \<Rightarrow> None) of
                          Some file \<Rightarrow> (True, Some (path_join output_dir file))
                        | None \<Rightarrow>
                            (case find (\<lambda>file. startswith file safe_title \<and>
                                          list_ex (\<lambda>ext. endswith file ext) audio_extensions)
                                    files_found of
                               Some file \<Rightarrow> (True, Some (path_join output_dir file))
                             | None \<Rightarrow>
                                 (case find (\<lambda>file. list_ex (\<lambda>ext. endswith file ext)
                                                      audio_extensions)
                                         files_found of
                                    Some file \<Rightarrow> (True, Some (path_join output_dir file))
                                  | None \<Rightarrow> (False, None))))))
      | _ \<Rightarrow> (False, None))"

subsection \<open>Output discovery, as the specification words it\<close>

text \<open>
  \<open>first_entry P files f\<close>: \<open>f\<close> is the first entry of the listing that satisfies \<open>P\<close>.
\<close>

definition first_entry :: "(string \<Rightarrow> bool) \<Rightarrow> string list \<Rightarrow> string \<Rightarrow> bool" where
  "first_entry P files f =
     (\<exists>before after. files = before @ f # after \<and> P f \<and> \<not> list_ex P before)"

text \<open>
  The preference order of the specification, section 4.4: (1) the safe title and the
  expected extension, (2) the safe title and a known audio or video extension, (3) for the
  audio kind only, a known audio extension. The specification does not enumerate the known
  extensions; the source knows \<^const>\<open>audio_extensions\<close> only, to which the usual video
  containers are added here.
\<close>

definition media_extensions :: "string list" where
  "media_extensions = audio_extensions @ [''.mp4'', ''.mkv'', ''.mov'', ''.avi'', ''.flv'', ''.3gp'']"

definition spec_discovery :: "bool \<Rightarrow> string option \<Rightarrow> string \<Rightarrow> string list \<Rightarrow> string option" where
  "spec_discovery audio_kind expected_extension safe_title files =
     (case (case expected_extension of
              Some ext \<Rightarrow> find (\<lambda>f. startswith f safe_title \<and> endswith f ext) files
            | None \<Rightarrow> None) of
        Some f \<Rightarrow> Some f
      | None \<Rightarrow>
          (case find (\<lambda>f. startswith f safe_title \<and> list_ex (endswith f) media_extensions) files of
             Some f \<Rightarrow> Some f
           | None \<Rightarrow>
               if audio_kind then find (\<lambda>f. list_ex (endswith f) audio_extensions) files
               else None))"

section \<open>Conversation flow (\<^verbatim>\<open>process_youtube_url\<close>, \<^verbatim>\<open>handle_callback\<close>, \<^verbatim>\<open>download_and_send\<close>)\<close>

text \<open>
  \<^verbatim>\<open>likes < self.likes_threshold\<close> with an integer threshold: Python 3 orders integers and
  raises \<^verbatim>\<open>TypeError\<close> when the left operand is \<^verbatim>\<open>None\<close> or a string.
\<close>

fun py_lt :: "pyval \<Rightarrow> int \<Rightarrow> exn + bool" where
  "py_lt (PInt n) t = Inr (n < t)"
| "py_lt PNone t = Inl TypeError"
| "py_lt (PStr s) t = Inl TypeError"

text \<open>
  \<^verbatim>\<open>format_duration\<close>. The result stands for the text: \<open>DurUnknown\<close> for \<^verbatim>\<open>"Unknown"\<close>,
  \<open>DurHMS h m s\<close> and \<open>DurMS m s\<close> for the two zero-padded renderings. \<^verbatim>\<open>divmod\<close> raises
  \<^verbatim>\<open>TypeError\<close> on \<^verbatim>\<open>None\<close> and on a string; on integers it is \<open>div\<close> and \<open>mod\<close>.
\<close>

datatype duration_text = DurUnknown | DurHMS int int int | DurMS int int

fun format_duration :: "pyval \<Rightarrow> exn + duration_text" where
  "format_duration (PInt seconds) =
     (if seconds = 0 then Inr DurUnknown
      else
        (let minutes = seconds div 60; seconds = seconds mod 60;
             hours = minutes div 60; minutes = minutes mod 60
         in if hours > 0 then Inr (DurHMS hours minutes seconds)
            else Inr (DurMS minutes seconds)))"
| "format_duration PNone = Inl TypeError"
| "format_duration (PStr s) = Inl TypeError"

text \<open>
  The chat transport is outside the program: a handler's effects on it are the list of the
  calls it makes, and the calls themselves are taken to succeed. A message is named by its
  kind and carries the values formatted into it.
\<close>

datatype message =
    MsgChecking
  | MsgRetrieveError
  | MsgBelowThreshold pyval pyval pyval int
  | MsgApproved pyval pyval duration_text pyval
  | MsgSendValidUrl
  | MsgCancelled
  | MsgInfoNotFound
  | MsgDownloading string pyval
  | MsgSending string pyval
  | MsgSent string pyval
  | MsgDownloadError string
  | MsgDownloadException string exn

datatype action =
    ReplyText message
  | EditText message
  | EditTextWithKeyboard message "string list"
  | Answer
  | ReplyFile string string pyval

text \<open>\<^verbatim>\<open>context.user_data\<close>, the per-user dictionary that holds the session state.\<close>

type_synonym user_data = "string \<rightharpoonup> pydict"

definition process_youtube_url ::
    "extractor \<Rightarrow> int \<Rightarrow> user_data \<Rightarrow> string \<Rightarrow> exn + user_data \<times> action list" where
  "process_youtube_url extract_info likes_threshold ud url =
     (case snd (get_video_info extract_info url) of
        None \<Rightarrow> Inr (ud, [ReplyText MsgChecking, EditText MsgRetrieveError])
      | Some video_info \<Rightarrow>
          if video_info = [] then Inr (ud, [ReplyText MsgChecking, EditText MsgRetrieveError])
          else
            (let likes = dict_get video_info ''like_count'' (PInt 0);
                 title = dict_get video_info ''title'' (PStr ''Unknown'');
                 uploader = dict_get video_info ''uploader'' (PStr ''Unknown'')
             in case format_duration (dict_get video_info ''duration'' (PInt 0)) of
                  Inl err \<Rightarrow> Inl err
                | Inr duration \<Rightarrow>
                    (case py_lt likes likes_threshold of
                       Inl err \<Rightarrow> Inl err
                     | Inr True \<Rightarrow>
                         Inr (ud, [ReplyText MsgChecking,
                                   EditText (MsgBelowThreshold title uploader likes likes_threshold)])
                     | Inr False \<Rightarrow>
                         Inr (ud(''video_info'' \<mapsto> video_info),
                              [ReplyText MsgChecking,
                               EditTextWithKeyboard (MsgApproved title uploader duration likes)
                                 [''download_mp4'', ''download_mp3'', ''cancel'']]))))"

definition handle_message ::
    "extractor \<Rightarrow> int \<Rightarrow> user_data \<Rightarrow> string \<Rightarrow> exn + user_data \<times> action list" where
  "handle_message extract_info likes_threshold ud message_text =
     (if is_youtube_url message_text
      then process_youtube_url extract_info likes_threshold ud message_text
      else Inr (ud, [ReplyText MsgSendValidUrl]))"

definition download_and_send :: "env \<Rightarrow> pydict \<Rightarrow> string \<Rightarrow> action list" where
  "download_and_send e video_info format_type =
     (let title = dict_get video_info ''title'' (PStr ''Unknown'');
          url = dict_get video_info ''url'' (PStr '''')
      in EditText (MsgDownloading format_type title) #
         (case temporary_directory e of
            Inl err \<Rightarrow> [EditText (MsgDownloadException format_type err)]
          | Inr temp_dir \<Rightarrow>
              (case (if format_type = ''mp4'' then download_video e url temp_dir title
                     else download_audio e url temp_dir title) of
                 (success, Some file_path) \<Rightarrow>
                   if success \<and> file_path \<noteq> [] \<and> path_exists e file_path
                   then EditText (MsgSending format_type title) #
                        (case send_file e format_type file_path of
                           None \<Rightarrow> [ReplyFile format_type file_path title,
                                     EditText (MsgSent format_type title)]
                         | Some err \<Rightarrow> [EditText (MsgDownloadException format_type err)])
                   else [EditText (MsgDownloadError format_type)]
               | (success, None) \<Rightarrow> [EditText (MsgDownloadError format_type)])))"

text \<open>
  \<^verbatim>\<open>handle_callback\<close> returns the session dictionary as it leaves it and the calls made on
  the transport. \<^verbatim>\<open>not video_info\<close> holds for \<^verbatim>\<open>None\<close> and for an empty dictionary.
\<close>

definition handle_callback :: "env \<Rightarrow> user_data \<Rightarrow> string \<Rightarrow> user_data \<times> action list" where
  "handle_callback e ud data =
     (if data = ''cancel'' then (ud, [Answer, EditText MsgCancelled])
      else
        (case ud ''video_info'' of
           None \<Rightarrow> (ud, [Answer, EditText MsgInfoNotFound])
         | Some video_info \<Rightarrow>
             if video_info = [] then (ud, [Answer, EditText MsgInfoNotFound])
             else if data = ''download_mp4''
               then (ud, Answer # download_and_send e video_info ''mp4'')
             else if data = ''download_mp3''
               then (ud, Answer # download_and_send e video_info ''mp3'')
             else (ud, [Answer])))"

section \<open>Notions used in the statements\<close>

subsection \<open>A supported shape after a given scheme\<close>

text \<open>
  \<open>shape_of_some_host sc u\<close>: after the scheme \<open>sc\<close>, the URL \<open>u\<close> has one of the eight
  host-and-path shapes followed by a video id.
\<close>

definition shape_of_some_host :: "string \<Rightarrow> string \<Rightarrow> bool" where
  "shape_of_some_host sc u \<longleftrightarrow>
     has_shape (sc @ ''youtube.com/watch?v='') u \<or> has_shape (sc @ ''www.youtube.com/watch?v='') u \<or>
     has_shape (sc @ ''m.youtube.com/watch?v='') u \<or>
     has_shape (sc @ ''youtu.be/'') u \<or> has_shape (sc @ ''www.youtu.be/'') u \<or>
     has_shape (sc @ ''youtube.com/shorts/'') u \<or> has_shape (sc @ ''www.youtube.com/shorts/'') u \<or>
     has_shape (sc @ ''m.youtube.com/shorts/'') u"

subsection \<open>The tiers of output discovery\<close>

text \<open>
  Names for the tests the discovery loops apply: the entry starts with the safe title; it
  ends with one of the audio extensions the source knows; the transcoder was found, so that
  the branch with the expected extension \<^verbatim>\<open>'.mp3'\<close> is taken.
\<close>

definition titled :: "string \<Rightarrow> string \<Rightarrow> bool" where
  "titled safe_title file = startswith file safe_title"

definition audio_file :: "string \<Rightarrow> bool" where
  "audio_file file = list_ex (endswith file) audio_extensions"

definition transcoding :: "env \<Rightarrow> bool" where
  "transcoding e = (which_ffmpeg e \<noteq> None \<and> which_ffmpeg e \<noteq> Some [])"

section \<open>Example inputs\<close>

text \<open>
  Concrete engines, records and environments on which the theorems below are instantiated.
  \<open>only_third\<close> is an engine for which only the configuration with the browser header
  succeeds; \<open>null_likes_engine\<close> returns a record whose like count is present and \<^verbatim>\<open>None\<close>,
  as the engine does for a video that hides its likes.
\<close>

definition example_info :: pydict where
  "example_info = [(''title'', PStr ''Demo''), (''like_count'', PInt 25), (''duration'', PInt 125)]"


definition null_likes_info :: pydict where
  "null_likes_info = [(''title'', PStr ''Demo''), (''like_count'', PNone), (''duration'', PInt 125)]"

definition null_likes_engine :: extractor where
  "null_likes_engine ydl_opts url = Inr (Some null_likes_info)"

definition demo_engine :: extractor where
  "demo_engine ydl_opts url = Inr (Some example_info)"

definition demo_env :: env where
  "demo_env =
     \<lparr>which_ffmpeg = Some ''/usr/bin/ffmpeg'',
      ydl_download = (\<lambda>ydl_opts url. None),
      listdir = (\<lambda>d. Inr [''cover.jpg'', ''My_Title.webm'', ''My_Title.mp3'']),
      temporary_directory = Inr ''/tmp/dl'',
      path_exists = (\<lambda>p. True),
      send_file = (\<lambda>format_type p. None)\<rparr>"

definition failing_env :: env where
  "failing_env = demo_env\<lparr>ydl_download := (\<lambda>ydl_opts url. Some (EngineError ''HTTP Error 403''))\<rparr>"

definition text_file_env :: env where
  "text_file_env = demo_env\<lparr>listdir := (\<lambda>d. Inr [''My_Title.txt''])\<rparr>"

definition video_container_env :: env where
  "video_container_env =
     demo_env\<lparr>which_ffmpeg := None, listdir := (\<lambda>d. Inr [''My_Title.mp4''])\<rparr>"

section \<open>Properties of the filename sanitizer\<close>

lemma foldl_str_replace:
  "new \<notin> set cs \<Longrightarrow>
   foldl (\<lambda>f ch. str_replace f ch new) s cs = map (\<lambda>c. if c \<in> set cs then new else c) s"
proof (induction cs arbitrary: s)
  case Nil
  then show ?case by simp
next
  case (Cons a cs)
  then show ?case by (auto simp: str_replace_def)
qed

lemma strip_set: "set (strip s) \<subseteq> set s"
  unfolding strip_def
  by (metis set_dropWhileD set_rev subsetI)

lemma strip_length: "length (strip s) \<le> length s"
  unfolding strip_def
  by (metis length_dropWhile_le length_rev order_trans)

lemma rstrip_prefix: "\<exists>u. t = rev (dropWhile P (rev t)) @ u"
proof -
  have "t = rev (dropWhile P (rev t)) @ rev (takeWhile P (rev t))"
    by (metis rev_append rev_rev_ident takeWhile_dropWhile_id)
  then show ?thesis by blast
qed

lemma strip_no_leading: "strip s = [] \<or> \<not> isspace (hd (strip s))"
proof (cases "strip s = []")
  case True
  then show ?thesis by simp
next
  case False
  define t where "t = dropWhile isspace s"
  obtain u where u: "t = strip s @ u"
    using rstrip_prefix [of t isspace] by (auto simp: strip_def t_def)
  with False have "hd (strip s) = hd t" and "t \<noteq> []" by auto
  then show ?thesis
    unfolding t_def by (metis hd_dropWhile)
qed

lemma strip_no_trailing: "dropWhile isspace (rev (strip s)) = rev (strip s)"
  by (simp add: strip_def)

lemma strip_idem: "strip (strip s) = strip s"
proof -
  have "dropWhile isspace (strip s) = strip s"
    using strip_no_leading [of s] by (auto simp: dropWhile_eq_self_iff)
  then show ?thesis
    using strip_no_trailing [of s] by (simp add: strip_def [of "strip s"])
qed

lemma sanitize_filename_eq:
  "sanitize_filename x =
     strip (take 100 (map (\<lambda>c. if c \<in> set invalid_chars then CHR ''_'' else c) x))"
proof -
  have "CHR ''_'' \<notin> set invalid_chars" by (simp add: invalid_chars_def)
  then show ?thesis
    by (simp add: sanitize_filename_def foldl_str_replace Let_def)
qed

lemma sanitize_filename_length: "length (sanitize_filename x) \<le> 100"
proof -
  have "length (sanitize_filename x)
      \<le> length (take 100 (map (\<lambda>c. if c \<in> set invalid_chars then CHR ''_'' else c) x))"
    unfolding sanitize_filename_eq by (rule strip_length)
  then show ?thesis by simp
qed

lemma sanitize_filename_valid: "set (sanitize_filename x) \<inter> set invalid_chars = {}"
proof -
  have u: "CHR ''_'' \<notin> set invalid_chars" by (simp add: invalid_chars_def)
  have "set (sanitize_filename x)
      \<subseteq> set (take 100 (map (\<lambda>c. if c \<in> set invalid_chars then CHR ''_'' else c) x))"
    unfolding sanitize_filename_eq by (rule strip_set)
  also have "\<dots> \<subseteq> set (map (\<lambda>c. if c \<in> set invalid_chars then CHR ''_'' else c) x)"
    by (rule set_take_subset)
  finally show ?thesis using u by auto
qed

lemma sanitize_filename_idem: "sanitize_filename (sanitize_filename x) = sanitize_filename x"
proof -
  let ?y = "sanitize_filename x"
  have "map (\<lambda>c. if c \<in> set invalid_chars then CHR ''_'' else c) ?y = ?y"
    using sanitize_filename_valid [of x] by (intro map_idI) auto
  moreover have "take 100 ?y = ?y"
    using sanitize_filename_length [of x] by simp
  moreover have "strip ?y = ?y"
    unfolding sanitize_filename_eq by (rule strip_idem)
  ultimately show ?thesis
    by (simp add: sanitize_filename_eq [of ?y])
qed

lemma strip_decomposition:
  "\<exists>before after. s = before @ strip s @ after \<and> list_all isspace before \<and> list_all isspace after"
proof -
  let ?t = "dropWhile isspace s"
  have a: "s = takeWhile isspace s @ ?t" by simp
  have b: "?t = strip s @ rev (takeWhile isspace (rev ?t))"
    unfolding strip_def by (metis rev_append rev_rev_ident takeWhile_dropWhile_id)
  have c: "list_all isspace (takeWhile isspace s)"
    by (simp add: list_all_iff) (metis set_takeWhileD)
  have d: "list_all isspace (rev (takeWhile isspace (rev ?t)))"
    by (simp add: list_all_iff) (metis set_takeWhileD)
  from a b have "s = takeWhile isspace s @ strip s @ rev (takeWhile isspace (rev ?t))"
    by metis
  with c d show ?thesis by blast
qed

lemma strip_last: "strip s = [] \<or> \<not> isspace (last (strip s))"
proof (cases "strip s = []")
  case True
  then show ?thesis by simp
next
  case False
  then have "rev (strip s) \<noteq> []" by simp
  moreover have "dropWhile isspace (rev (strip s)) = rev (strip s)"
    by (rule strip_no_trailing)
  ultimately have "\<not> isspace (hd (rev (strip s)))"
    by (metis hd_dropWhile)
  with False show ?thesis by (simp add: hd_rev)
qed

lemma isspace_iff:
  "isspace c \<longleftrightarrow> c \<in> {CHR 0x09, CHR 0x0A, CHR 0x0B, CHR 0x0C, CHR 0x0D, CHR 0x1C, CHR 0x1D,
                       CHR 0x1E, CHR 0x1F, CHR 0x20, CHR 0x85, CHR 0xA0}"
  by (simp add: isspace_def)

lemma invalid_chars_set:
  "set invalid_chars = {CHR ''<'', CHR ''>'', CHR '':'', CHR 0x22, CHR ''/'', CHR 0x5C, CHR ''|'',
                        CHR ''?'', CHR ''*''}"
  by (simp add: invalid_chars_def)

text \<open>
  Claim C5. For every string \<open>x\<close>, \<^const>\<open>sanitize_filename\<close> replaces each of the nine
  characters \<^verbatim>\<open>< > : " / \ | ? *\<close> by an underscore, truncates to at most 100 characters
  and then strips the whitespace at both ends: the truncated string is the result between two
  runs of whitespace, and the result neither starts nor ends with whitespace. It is idempotent,
  its output never exceeds 100 characters, and its output contains none of the nine
  characters. The characters and the whitespace are written out in the statement.
\<close>

theorem sanitize_filename_spec:
  "(\<exists>before after.
      take 100 (map (\<lambda>c. if c \<in> {CHR ''<'', CHR ''>'', CHR '':'', CHR 0x22, CHR ''/'', CHR 0x5C,
                                     CHR ''|'', CHR ''?'', CHR ''*''} then CHR ''_'' else c) x) =
        before @ sanitize_filename x @ after
      \<and> set before \<subseteq> {CHR 0x09, CHR 0x0A, CHR 0x0B, CHR 0x0C, CHR 0x0D, CHR 0x1C, CHR 0x1D,
                        CHR 0x1E, CHR 0x1F, CHR 0x20, CHR 0x85, CHR 0xA0}
      \<and> set after \<subseteq> {CHR 0x09, CHR 0x0A, CHR 0x0B, CHR 0x0C, CHR 0x0D, CHR 0x1C, CHR 0x1D,
                       CHR 0x1E, CHR 0x1F, CHR 0x20, CHR 0x85, CHR 0xA0})
   \<and> (sanitize_filename x = [] \<or>
        hd (sanitize_filename x) \<notin> {CHR 0x09, CHR 0x0A, CHR 0x0B, CHR 0x0C, CHR 0x0D, CHR 0x1C,
                                     CHR 0x1D, CHR 0x1E, CHR 0x1F, CHR 0x20, CHR 0x85, CHR 0xA0} \<and>
        last (sanitize_filename x) \<notin> {CHR 0x09, CHR 0x0A, CHR 0x0B, CHR 0x0C, CHR 0x0D, CHR 0x1C,
                                       CHR 0x1D, CHR 0x1E, CHR 0x1F, CHR 0x20, CHR 0x85, CHR 0xA0})
   \<and> sanitize_filename (sanitize_filename x) = sanitize_filename x
   \<and> length (sanitize_filename x) \<le> 100
   \<and> set (sanitize_filename x) \<inter> {CHR ''<'', CHR ''>'', CHR '':'', CHR 0x22, CHR ''/'', CHR 0x5C,
                                    CHR ''|'', CHR ''?'', CHR ''*''} = {}"
proof -
  define ws where "ws = {CHR 0x09, CHR 0x0A, CHR 0x0B, CHR 0x0C, CHR 0x0D, CHR 0x1C, CHR 0x1D,
                         CHR 0x1E, CHR 0x1F, CHR 0x20, CHR 0x85, CHR 0xA0}"
  define bad where "bad = {CHR ''<'', CHR ''>'', CHR '':'', CHR 0x22, CHR ''/'', CHR 0x5C, CHR ''|'',
                           CHR ''?'', CHR ''*''}"
  define m where "m = take 100 (map (\<lambda>c. if c \<in> bad then CHR ''_'' else c) x)"
  define r where "r = sanitize_filename x"
  have ws: "isspace c \<longleftrightarrow> c \<in> ws" for c
    unfolding ws_def by (rule isspace_iff)
  have bad: "set invalid_chars = bad"
    unfolding bad_def by (rule invalid_chars_set)
  have e: "strip m = r"
    unfolding m_def r_def bad [symmetric] by (simp only: sanitize_filename_eq)
  obtain before after where d: "m = before @ strip m @ after"
      "list_all isspace before" "list_all isspace after"
    using strip_decomposition [of m] by blast
  from d(2) have b1: "set before \<subseteq> ws"
    by (auto simp: list_all_iff ws)
  from d(3) have b2: "set after \<subseteq> ws"
    by (auto simp: list_all_iff ws)
  from d(1) have "m = before @ r @ after" by (simp only: e)
  with b1 b2 have 1: "\<exists>before after. m = before @ r @ after \<and> set before \<subseteq> ws \<and> set after \<subseteq> ws"
    by blast
  have 2: "r = [] \<or> hd r \<notin> ws \<and> last r \<notin> ws"
    using strip_no_leading [of m] strip_last [of m] by (simp only: e ws) blast
  have 3: "sanitize_filename r = r"
    unfolding r_def by (rule sanitize_filename_idem)
  have 4: "length r \<le> 100"
    unfolding r_def by (rule sanitize_filename_length)
  have 5: "set r \<inter> bad = {}"
    unfolding r_def bad [symmetric] by (rule sanitize_filename_valid)
  from 1 2 3 4 5 have "(\<exists>before after. m = before @ r @ after \<and> set before \<subseteq> ws \<and> set after \<subseteq> ws)
      \<and> (r = [] \<or> hd r \<notin> ws \<and> last r \<notin> ws) \<and> sanitize_filename r = r \<and> length r \<le> 100
      \<and> set r \<inter> bad = {}"
    by (intro conjI)
  then show ?thesis
    unfolding m_def r_def ws_def bad_def .
qed

lemma sanitize_filename_example: "sanitize_filename '' a<b>c:d '' = ''a_b_c_d''"
  by (simp add: sanitize_filename_eq invalid_chars_def strip_def isspace_def)

section \<open>Properties of the URL classifier\<close>

lemma rmatch_Lit_iff: "t \<in> set (rmatch (Lit l) s) \<longleftrightarrow> s = l @ t"
proof
  assume "t \<in> set (rmatch (Lit l) s)"
  then have "take (length l) s = l" and "t = drop (length l) s"
    by (auto simp: startswith_def split: if_splits)
  then show "s = l @ t" by (metis append_take_drop_id)
next
  assume "s = l @ t"
  then show "t \<in> set (rmatch (Lit l) s)" by (simp add: startswith_def)
qed

lemma rmatch_Opt_iff: "t \<in> set (rmatch (Opt r) s) \<longleftrightarrow> t = s \<or> t \<in> set (rmatch r s)"
  by auto

lemma rmatch_Seq_iff:
  "t \<in> set (rmatch (Seq r1 r2) s) \<longleftrightarrow> (\<exists>m. m \<in> set (rmatch r1 s) \<and> t \<in> set (rmatch r2 m))"
  by auto

lemma greedy_nonempty: "greedy p s \<noteq> []"
  by (induction s) auto

lemma re_match_Plus: "re_match (Plus p) s \<longleftrightarrow> (\<exists>c t. s = c # t \<and> p c)"
  by (cases s) (auto simp: re_match_def greedy_nonempty)

lemma re_match_Seq: "re_match (Seq r1 r2) s \<longleftrightarrow> (\<exists>m. m \<in> set (rmatch r1 s) \<and> re_match r2 m)"
  by (auto simp: re_match_def)

lemma re_match_Seq_Opt: "re_match (Seq r (Opt x)) s \<longleftrightarrow> re_match r s"
  by (auto simp: re_match_def)

lemma rmatch_scheme_iff: "t \<in> set (rmatch scheme s) \<longleftrightarrow> (\<exists>sc. sc \<in> set schemes \<and> s = sc @ t)"
proof -
  have "t \<in> set (rmatch scheme s) \<longleftrightarrow>
      t = s \<or> (\<exists>m. s = ''http'' @ m \<and> (m = ''://'' @ t \<or> m = ''s'' @ ''://'' @ t))"
    unfolding scheme_def rmatch_Opt_iff rmatch_Seq_iff rmatch_Lit_iff by blast
  also have "\<dots> \<longleftrightarrow> s = [] @ t \<or> s = ''http://'' @ t \<or> s = ''https://'' @ t"
    by auto
  also have "\<dots> \<longleftrightarrow> (\<exists>sc. sc \<in> set schemes \<and> s = sc @ t)"
    unfolding schemes_def by (simp del: append_Nil append_Cons) blast
  finally show ?thesis .
qed

lemma has_shape_iff: "has_shape p url \<longleftrightarrow> (\<exists>c t. url = p @ c # t \<and> id_char c)"
proof
  assume h: "has_shape p url"
  then have p: "take (length p) url = p" by (simp add: has_shape_def startswith_def)
  from h obtain c t where d: "drop (length p) url = c # t" and c: "id_char c"
    by (cases "drop (length p) url") (auto simp: has_shape_def)
  from p d have "url = p @ c # t" by (metis append_take_drop_id)
  with c show "\<exists>c t. url = p @ c # t \<and> id_char c" by blast
next
  assume "\<exists>c t. url = p @ c # t \<and> id_char c"
  then show "has_shape p url" by (auto simp: has_shape_def startswith_def)
qed

lemma prefix_regex_iff:
  "m \<in> set (rmatch (Seq (Seq scheme (Opt (Lit w))) (Lit hp)) u) \<longleftrightarrow>
     (\<exists>sc. sc \<in> set schemes \<and> (u = sc @ hp @ m \<or> u = sc @ (w @ hp) @ m))"
  unfolding rmatch_Seq_iff rmatch_Opt_iff rmatch_Lit_iff rmatch_scheme_iff by auto

lemma pattern_iff:
  "re_match (cat scheme [Opt (Lit w), Lit hp, Plus id_char]) u \<longleftrightarrow>
     (\<exists>sc. sc \<in> set schemes \<and> (has_shape (sc @ hp) u \<or> has_shape (sc @ w @ hp) u))"
proof -
  have "re_match (cat scheme [Opt (Lit w), Lit hp, Plus id_char]) u \<longleftrightarrow>
      (\<exists>m. m \<in> set (rmatch (Seq (Seq scheme (Opt (Lit w))) (Lit hp)) u) \<and> re_match (Plus id_char) m)"
    by (simp add: cat_def re_match_Seq del: rmatch.simps)
  also have "\<dots> \<longleftrightarrow> (\<exists>sc. sc \<in> set schemes \<and>
      ((\<exists>c t. u = (sc @ hp) @ c # t \<and> id_char c) \<or> (\<exists>c t. u = (sc @ w @ hp) @ c # t \<and> id_char c)))"
    unfolding prefix_regex_iff re_match_Plus by (simp del: rmatch.simps) blast
  finally show ?thesis unfolding has_shape_iff .
qed

lemma pattern_tail_iff:
  "re_match (cat scheme [Opt (Lit w), Lit hp, Plus id_char, Opt x]) u \<longleftrightarrow>
     re_match (cat scheme [Opt (Lit w), Lit hp, Plus id_char]) u"
  by (simp add: cat_def re_match_Seq_Opt del: rmatch.simps)

lemma host_path_appends:
  "sc @ ''www.'' @ ''youtube.com/watch?v='' = sc @ ''www.youtube.com/watch?v=''"
  "sc @ ''www.'' @ ''youtu.be/'' = sc @ ''www.youtu.be/''"
  "sc @ ''m.'' @ ''youtube.com/watch?v='' = sc @ ''m.youtube.com/watch?v=''"
  "sc @ ''www.'' @ ''youtube.com/shorts/'' = sc @ ''www.youtube.com/shorts/''"
  "sc @ ''m.'' @ ''youtube.com/shorts/'' = sc @ ''m.youtube.com/shorts/''"
  by simp_all

lemma is_youtube_url_shapes:
  "is_youtube_url u \<longleftrightarrow> (\<exists>sc. sc \<in> set schemes \<and> shape_of_some_host sc u)"
  unfolding is_youtube_url_def youtube_patterns_def list_ex_Cons_iff list_ex_Nil_iff
    pattern_tail_iff pattern_iff host_path_appends shape_of_some_host_def
  by blast

lemma supported_url_shapes:
  "supported_url u \<longleftrightarrow> (\<exists>sc. sc \<in> set schemes \<and> shape_of_some_host sc u)"
  unfolding supported_url_def host_paths_def list_ex_Cons_iff list_ex_Nil_iff
    shape_of_some_host_def list_ex_iff [of _ schemes]
  by blast

lemma is_youtube_url_iff: "is_youtube_url u \<longleftrightarrow> supported_url u"
  unfolding is_youtube_url_shapes supported_url_shapes ..

lemma is_youtube_url_accepts:
  assumes "list_ex ((=) sc) schemes" and "list_ex ((=) h) host_paths" and "id_char c"
  shows "is_youtube_url (sc @ h @ c # rest)"
proof -
  have "has_shape (sc @ h) (sc @ h @ c # rest)"
    unfolding has_shape_iff using assms(3) by auto
  with assms(1,2) have "supported_url (sc @ h @ c # rest)"
    unfolding supported_url_def list_ex_iff by blast
  then show ?thesis by (simp only: is_youtube_url_iff)
qed

lemma is_youtube_url_empty: "\<not> is_youtube_url []"
proof -
  have "\<not> has_shape p []" for p by (simp add: has_shape_iff)
  then show ?thesis unfolding is_youtube_url_iff supported_url_def list_ex_iff by blast
qed

lemma is_youtube_url_vimeo: "\<not> is_youtube_url ''https://vimeo.com/watch?v=abc''"
  unfolding is_youtube_url_iff
  by (simp add: supported_url_def schemes_def host_paths_def has_shape_def startswith_def)

lemma id_char_examples: "id_char CHR ''a''" "id_char CHR ''V''" "id_char CHR ''x''"
  by (simp_all add: id_char_def word_char_def)

text \<open>
  Claim C6. \<^const>\<open>is_youtube_url\<close> is true for every supported URL shape (watch link,
  short-link domain, mobile subdomain, shorts path, after any of the schemes), whatever
  follows the first character of the video id, so with and without a trailing query string:
  the match is a match of a prefix. It is false for every other input: it holds exactly for
  the strings of a supported shape, and so it is false for the empty string and for a URL of
  another domain.
\<close>

theorem is_youtube_url_spec:
  "is_youtube_url u = supported_url u
   \<and> (list_ex ((=) sc) schemes \<and> list_ex ((=) h) host_paths \<and> id_char c \<longrightarrow>
        is_youtube_url (sc @ h @ c # rest))
   \<and> \<not> is_youtube_url []
   \<and> \<not> is_youtube_url ''https://vimeo.com/watch?v=abc''"
  using is_youtube_url_iff [of u] is_youtube_url_accepts [of sc h c rest] is_youtube_url_empty
    is_youtube_url_vimeo
  by blast

theorem is_youtube_url_spec_witness:
  "is_youtube_url ''https://youtu.be/abc?t=1''
   \<and> is_youtube_url ''https://youtu.be/abc'' = supported_url ''https://youtu.be/abc''"
proof -
  have "list_ex ((=) ''https://'') schemes" and "list_ex ((=) ''youtu.be/'') host_paths"
    by (simp_all add: schemes_def host_paths_def)
  with is_youtube_url_spec [of "''https://youtu.be/abc''" "''https://''" "''youtu.be/''" "CHR ''a''" "''bc?t=1''"]
    id_char_examples(1)
  have "is_youtube_url (''https://'' @ ''youtu.be/'' @ CHR ''a'' # ''bc?t=1'')
      \<and> is_youtube_url ''https://youtu.be/abc'' = supported_url ''https://youtu.be/abc''"
    by blast
  then show ?thesis by simp
qed

text \<open>
  Claim C10. The scheme is optional in every pattern: each supported shape is also accepted
  with no scheme at all and with the plain \<^verbatim>\<open>http://\<close> scheme, for example
  \<^verbatim>\<open>youtube.com/watch?v=VIDEO_ID\<close> and \<^verbatim>\<open>www.youtu.be/VIDEO_ID\<close>, although the help text lists
  \<^verbatim>\<open>https\<close> URLs only.
\<close>

theorem is_youtube_url_scheme_optional:
  "(list_ex ((=) sc) ['''', ''http://''] \<and> list_ex ((=) h) host_paths \<and> id_char c \<longrightarrow>
      is_youtube_url (sc @ h @ c # rest))
   \<and> is_youtube_url ''youtube.com/watch?v=VIDEO_ID''
   \<and> is_youtube_url ''www.youtu.be/VIDEO_ID''"
proof (intro conjI impI)
  assume a: "list_ex ((=) sc) ['''', ''http://''] \<and> list_ex ((=) h) host_paths \<and> id_char c"
  then have "list_ex ((=) sc) schemes" by (auto simp: schemes_def)
  with a show "is_youtube_url (sc @ h @ c # rest)" by (simp only: is_youtube_url_accepts)
next
  have "is_youtube_url ([] @ ''youtube.com/watch?v='' @ CHR ''V'' # ''IDEO_ID'')"
    by (rule is_youtube_url_accepts) (simp_all add: schemes_def host_paths_def id_char_examples)
  then show "is_youtube_url ''youtube.com/watch?v=VIDEO_ID''" by simp
next
  have "is_youtube_url ([] @ ''www.youtu.be/'' @ CHR ''V'' # ''IDEO_ID'')"
    by (rule is_youtube_url_accepts) (simp_all add: schemes_def host_paths_def id_char_examples)
  then show "is_youtube_url ''www.youtu.be/VIDEO_ID''" by simp
qed

theorem is_youtube_url_scheme_optional_witness:
  "is_youtube_url ''http://m.youtube.com/shorts/x1''"
proof -
  have "list_ex ((=) ''http://'') ['''', ''http://'']"
    and "list_ex ((=) ''m.youtube.com/shorts/'') host_paths"
    by (simp_all add: host_paths_def)
  with is_youtube_url_scheme_optional [of "''http://''" "''m.youtube.com/shorts/''" "CHR ''x''" "''1''"]
    id_char_examples(3)
  have "is_youtube_url (''http://'' @ ''m.youtube.com/shorts/'' @ CHR ''x'' # ''1'')"
    by blast
  then show ?thesis by simp
qed

section \<open>Properties of the metadata resolver\<close>

lemma try_strategies_skip:
  "\<not> succeeds ex url c \<Longrightarrow>
   try_strategies ex url (c # cs) =
     (c # fst (try_strategies ex url cs), snd (try_strategies ex url cs))"
  by (auto simp: succeeds_def split: sum.splits option.splits prod.splits)

lemma try_strategies_hit:
  "ex c url = Inr (Some info) \<Longrightarrow>
   try_strategies ex url (c # cs) = ([c], Some (video_info_of url info))"
  by simp

lemma succeeds_iff: "succeeds ex url c \<longleftrightarrow> (\<exists>info. ex c url = Inr (Some info))"
  by (auto simp: succeeds_def split: sum.splits option.splits)






lemma dict_get_absent: "map_of d k = None \<Longrightarrow> dict_get d k v = v"
  by (simp add: dict_get_def)

lemma dict_get_present: "map_of d k = Some w \<Longrightarrow> dict_get d k v = w"
  by (simp add: dict_get_def)

lemma dict_get_not_null:
  "\<not> list_ex (\<lambda>(k, v). v = PNone) d \<Longrightarrow> v \<noteq> PNone \<Longrightarrow> dict_get d k v \<noteq> PNone"
proof (cases "map_of d k")
  case None
  assume "v \<noteq> PNone"
  with None show ?thesis by (simp add: dict_get_def)
next
  case (Some w)
  assume n: "\<not> list_ex (\<lambda>(k, v). v = PNone) d"
  from Some have "(k, w) \<in> set d" by (rule map_of_SomeD)
  with n have "w \<noteq> PNone" by (auto simp: list_ex_iff)
  with Some show ?thesis by (simp add: dict_get_def)
qed

lemma video_info_of_keys:
  "map fst (video_info_of url info) =
     [''title'', ''uploader'', ''duration'', ''like_count'', ''view_count'', ''url'', ''id'',
      ''thumbnail'']"
  by (simp add: video_info_of_def)

lemma video_info_of_lookup:
  "map_of (video_info_of url info) ''title'' = Some (dict_get info ''title'' (PStr ''Unknown''))"
  "map_of (video_info_of url info) ''uploader'' = Some (dict_get info ''uploader'' (PStr ''Unknown''))"
  "map_of (video_info_of url info) ''duration'' = Some (dict_get info ''duration'' (PInt 0))"
  "map_of (video_info_of url info) ''like_count'' = Some (dict_get info ''like_count'' (PInt 0))"
  "map_of (video_info_of url info) ''view_count'' = Some (dict_get info ''view_count'' (PInt 0))"
  "map_of (video_info_of url info) ''url'' = Some (PStr url)"
  "map_of (video_info_of url info) ''id'' = Some (dict_get info ''id'' (PStr []))"
  "map_of (video_info_of url info) ''thumbnail'' = Some (dict_get info ''thumbnail'' (PStr []))"
  by (simp_all add: video_info_of_def)
lemma video_info_of_copies:
  assumes "list_ex ((=) k) [''title'', ''uploader'', ''duration'', ''like_count'', ''view_count'',
                        ''id'', ''thumbnail'']"
    and "map_of info k = Some v"
  shows "map_of (video_info_of url info) k = Some v"
proof -
  have c: "map_of info key = Some v \<Longrightarrow> Some (dict_get info key d) = Some v" for key d
    by (simp add: dict_get_def)
  from assms(1) have "k = ''title'' \<or> k = ''uploader'' \<or> k = ''duration'' \<or>
      k = ''like_count'' \<or> k = ''view_count'' \<or> k = ''id'' \<or> k = ''thumbnail''"
    by (simp only: list_ex_Cons_iff list_ex_Nil_iff simp_thms)
  then show ?thesis
  proof (elim disjE)
    assume "k = ''title''"
    with assms(2) show ?thesis by (simp only: video_info_of_lookup c)
  next
    assume "k = ''uploader''"
    with assms(2) show ?thesis by (simp only: video_info_of_lookup c)
  next
    assume "k = ''duration''"
    with assms(2) show ?thesis by (simp only: video_info_of_lookup c)
  next
    assume "k = ''like_count''"
    with assms(2) show ?thesis by (simp only: video_info_of_lookup c)
  next
    assume "k = ''view_count''"
    with assms(2) show ?thesis by (simp only: video_info_of_lookup c)
  next
    assume "k = ''id''"
    with assms(2) show ?thesis by (simp only: video_info_of_lookup c)
  next
    assume "k = ''thumbnail''"
    with assms(2) show ?thesis by (simp only: video_info_of_lookup c)
  qed
qed
lemma video_info_of_not_null:
  assumes "\<not> list_ex (\<lambda>(k, v). v = PNone) info"
  shows "\<not> list_ex (\<lambda>(k, v). v = PNone) (video_info_of url info)"
proof -
  have "dict_get info k (PStr s) \<noteq> PNone" and "dict_get info k (PInt n) \<noteq> PNone" for k s n
    using assms by (simp_all add: dict_get_not_null)
  then show ?thesis
    by (simp add: video_info_of_def)
qed
text \<open>
  Claim C3, as amended. For every raw engine record, the normalised record has all eight
  keys. A field that is absent from the raw record gets its default: \<^verbatim>\<open>"Unknown"\<close> for the title
  and the uploader, the empty string for the id and the thumbnail, 0 for the duration, the
  like count and the view count; the url is the requested one. A field that is present with
  a value other than \<^verbatim>\<open>None\<close> is copied, and a raw record without \<^verbatim>\<open>None\<close> gives a record
  without \<^verbatim>\<open>None\<close>.
\<close>

theorem video_info_of_defaults:
  "map fst (video_info_of url info) =
     [''title'', ''uploader'', ''duration'', ''like_count'', ''view_count'', ''url'', ''id'',
      ''thumbnail'']
   \<and> map_of (video_info_of url info) ''url'' = Some (PStr url)
   \<and> (map_of info ''title'' = None \<longrightarrow>
        map_of (video_info_of url info) ''title'' = Some (PStr ''Unknown''))
   \<and> (map_of info ''uploader'' = None \<longrightarrow>
        map_of (video_info_of url info) ''uploader'' = Some (PStr ''Unknown''))
   \<and> (map_of info ''duration'' = None \<longrightarrow>
        map_of (video_info_of url info) ''duration'' = Some (PInt 0))
   \<and> (map_of info ''like_count'' = None \<longrightarrow>
        map_of (video_info_of url info) ''like_count'' = Some (PInt 0))
   \<and> (map_of info ''view_count'' = None \<longrightarrow>
        map_of (video_info_of url info) ''view_count'' = Some (PInt 0))
   \<and> (map_of info ''id'' = None \<longrightarrow>
        map_of (video_info_of url info) ''id'' = Some (PStr []))
   \<and> (map_of info ''thumbnail'' = None \<longrightarrow>
        map_of (video_info_of url info) ''thumbnail'' = Some (PStr []))
   \<and> (list_ex ((=) k) [''title'', ''uploader'', ''duration'', ''like_count'', ''view_count'',
                        ''id'', ''thumbnail''] \<and> map_of info k = Some v \<and> v \<noteq> PNone \<longrightarrow>
        map_of (video_info_of url info) k = Some v)
   \<and> (\<not> list_ex (\<lambda>(k, v). v = PNone) info \<longrightarrow>
        \<not> list_ex (\<lambda>(k, v). v = PNone) (video_info_of url info))"
proof (intro conjI impI)
  show "map fst (video_info_of url info) =
     [''title'', ''uploader'', ''duration'', ''like_count'', ''view_count'', ''url'', ''id'',
      ''thumbnail'']"
    by (rule video_info_of_keys)
  show "map_of (video_info_of url info) ''url'' = Some (PStr url)"
    by (rule video_info_of_lookup)
  show "map_of (video_info_of url info) ''title'' = Some (PStr ''Unknown'')"
    if "map_of info ''title'' = None"
    using that by (simp only: video_info_of_lookup dict_get_absent)
  show "map_of (video_info_of url info) ''uploader'' = Some (PStr ''Unknown'')"
    if "map_of info ''uploader'' = None"
    using that by (simp only: video_info_of_lookup dict_get_absent)
  show "map_of (video_info_of url info) ''duration'' = Some (PInt 0)"
    if "map_of info ''duration'' = None"
    using that by (simp only: video_info_of_lookup dict_get_absent)
  show "map_of (video_info_of url info) ''like_count'' = Some (PInt 0)"
    if "map_of info ''like_count'' = None"
    using that by (simp only: video_info_of_lookup dict_get_absent)
  show "map_of (video_info_of url info) ''view_count'' = Some (PInt 0)"
    if "map_of info ''view_count'' = None"
    using that by (simp only: video_info_of_lookup dict_get_absent)
  show "map_of (video_info_of url info) ''id'' = Some (PStr [])"
    if "map_of info ''id'' = None"
    using that by (simp only: video_info_of_lookup dict_get_absent)
  show "map_of (video_info_of url info) ''thumbnail'' = Some (PStr [])"
    if "map_of info ''thumbnail'' = None"
    using that by (simp only: video_info_of_lookup dict_get_absent)
  show "map_of (video_info_of url info) k = Some v"
    if "list_ex ((=) k) [''title'', ''uploader'', ''duration'', ''like_count'', ''view_count'',
                        ''id'', ''thumbnail''] \<and> map_of info k = Some v \<and> v \<noteq> PNone"
    using that video_info_of_copies by blast
  show "\<not> list_ex (\<lambda>(k, v). v = PNone) (video_info_of url info)"
    if "\<not> list_ex (\<lambda>(k, v). v = PNone) info"
    using that by (rule video_info_of_not_null)
qed

lemma example_info_lookup:
  "map_of example_info ''uploader'' = None"
  "map_of example_info ''view_count'' = None"
  "map_of example_info ''id'' = None"
  "map_of example_info ''thumbnail'' = None"
  "map_of example_info ''like_count'' = Some (PInt 25)"
  "\<not> list_ex (\<lambda>(k, v). v = PNone) example_info"
  by (simp_all add: example_info_def)

theorem video_info_of_defaults_witness:
  "map_of (video_info_of ''https://youtu.be/abc'' example_info) ''uploader'' = Some (PStr ''Unknown'')
   \<and> map_of (video_info_of ''https://youtu.be/abc'' example_info) ''view_count'' = Some (PInt 0)
   \<and> map_of (video_info_of ''https://youtu.be/abc'' example_info) ''id'' = Some (PStr [])
   \<and> map_of (video_info_of ''https://youtu.be/abc'' example_info) ''thumbnail'' = Some (PStr [])
   \<and> map_of (video_info_of ''https://youtu.be/abc'' example_info) ''like_count'' = Some (PInt 25)
   \<and> \<not> list_ex (\<lambda>(k, v). v = PNone) (video_info_of ''https://youtu.be/abc'' example_info)"
proof -
  have k: "list_ex ((=) ''like_count'') [''title'', ''uploader'', ''duration'', ''like_count'',
      ''view_count'', ''id'', ''thumbnail'']"
    by simp
  have v: "PInt 25 \<noteq> PNone" by simp
  note t = video_info_of_defaults [of "''https://youtu.be/abc''" example_info "''like_count''" "PInt 25"]
  from t example_info_lookup k v show ?thesis by blast
qed
text \<open>
  The claim as stated fails on the empty raw record: the id and the thumbnail default to the
  empty string, not to \<^verbatim>\<open>"Unknown"\<close>. A like count that is present and \<^verbatim>\<open>None\<close> is copied.
\<close>

theorem video_info_of_counterexample:
  "map_of (video_info_of ''https://youtu.be/abc'' []) ''id'' \<noteq> Some (PStr ''Unknown'')
   \<and> map_of (video_info_of ''https://youtu.be/abc'' []) ''thumbnail'' \<noteq> Some (PStr ''Unknown'')
   \<and> map_of (video_info_of ''https://youtu.be/abc'' [(''like_count'', PNone)]) ''like_count'' = Some PNone"
  by (simp add: video_info_of_def dict_get_def)

section \<open>The popularity gate\<close>

lemma format_duration_int: "\<exists>t. format_duration (PInt d) = Inr t"
  by (cases "d = 0"; cases "0 < d div 60 div 60") (simp_all add: Let_def)

text \<open>
  On a record whose like count and duration are integers the gate is as the specification
  says: the record is stored, and the format choice offered, exactly when the like count is
  at least the threshold.
\<close>

lemma process_youtube_url_gate:
  assumes "ex (hd ydl_opts_list) url = Inr (Some info)"
    and "map_of info ''like_count'' = Some (PInt likes)"
    and "map_of info ''duration'' = Some (PInt d)"
  shows "\<exists>acts. process_youtube_url ex threshold ud url =
           Inr (if likes \<ge> threshold then ud(''video_info'' \<mapsto> video_info_of url info) else ud, acts)"
proof -
  have g: "get_video_info ex url = ([hd ydl_opts_list], Some (video_info_of url info))"
    using assms(1) by (simp add: get_video_info_def ydl_opts_list_def)
  have l: "dict_get (video_info_of url info) ''like_count'' (PInt 0) = PInt likes"
    using assms(2) by (simp add: video_info_of_def dict_get_def)
  have u: "dict_get (video_info_of url info) ''duration'' (PInt 0) = PInt d"
    using assms(3) by (simp add: video_info_of_def dict_get_def)
  have n: "video_info_of url info \<noteq> []"
    by (simp add: video_info_of_def)
  obtain t where t: "format_duration (PInt d) = Inr t"
    using format_duration_int by blast
  show ?thesis
    by (cases "likes < threshold")
      (simp_all add: process_youtube_url_def g l u n t Let_def del: format_duration.simps)
qed


lemma null_likes_resolved:
  "get_video_info null_likes_engine url =
     ([hd ydl_opts_list], Some (video_info_of url null_likes_info))"
  by (simp add: get_video_info_def ydl_opts_list_def null_likes_engine_def)

lemma null_likes_fields:
  "dict_get (video_info_of url null_likes_info) ''like_count'' (PInt 0) = PNone"
  "dict_get (video_info_of url null_likes_info) ''duration'' (PInt 0) = PInt 125"
  "video_info_of url null_likes_info \<noteq> []"
  by (simp_all add: video_info_of_def dict_get_def null_likes_info_def)

text \<open>
  Claim C4. The popularity gate is total, with no failure mode. On a record whose like count
  is present and \<^verbatim>\<open>None\<close> the code does not decide: \<^verbatim>\<open>video_info.get('like_count', 0)\<close> yields
  \<^verbatim>\<open>None\<close>, and the comparison with the threshold raises \<^verbatim>\<open>TypeError\<close>, which nothing in
  \<^verbatim>\<open>process_youtube_url\<close> catches.
\<close>

theorem process_youtube_url_null_likes:
  "process_youtube_url null_likes_engine 10 Map.empty ''https://youtu.be/abc'' = Inl TypeError"
  by (simp add: process_youtube_url_def null_likes_resolved null_likes_fields Let_def)

section \<open>Properties of the download operations\<close>

lemma download_video_result:
  "fst (download_video e url output_dir title) = (snd (download_video e url output_dir title) \<noteq> None)"
  by (simp add: download_video_def Let_def split: pyval.splits option.splits sum.splits)

lemma download_audio_result:
  "fst (download_audio e url output_dir title) = (snd (download_audio e url output_dir title) \<noteq> None)"
  by (simp add: download_audio_def Let_def split: pyval.splits option.splits sum.splits)

lemma download_video_engine_raises:
  assumes "\<forall>ydl_opts. ydl_download e ydl_opts url \<noteq> None"
  shows "download_video e url output_dir title = (False, None)"
proof -
  have n: "(ydl_download e ydl_opts url = None) = False" for ydl_opts
    using assms by simp
  show ?thesis
    by (simp add: download_video_def Let_def n split: pyval.splits option.splits)
qed

lemma download_audio_engine_raises:
  assumes "\<forall>ydl_opts. ydl_download e ydl_opts url \<noteq> None"
  shows "download_audio e url output_dir title = (False, None)"
proof -
  have n: "(ydl_download e ydl_opts url = None) = False" for ydl_opts
    using assms by simp
  show ?thesis
    by (simp add: download_audio_def Let_def n split: pyval.splits option.splits)
qed

lemma download_video_listdir_raises:
  "listdir e output_dir = Inl err \<Longrightarrow> download_video e url output_dir title = (False, None)"
  by (simp add: download_video_def Let_def split: pyval.splits option.splits)

lemma download_audio_listdir_raises:
  "listdir e output_dir = Inl err \<Longrightarrow> download_audio e url output_dir title = (False, None)"
  by (simp add: download_audio_def Let_def split: pyval.splits option.splits)

lemma download_not_a_string:
  "\<forall>t. title \<noteq> PStr t \<Longrightarrow>
   download_video e url output_dir title = (False, None) \<and>
   download_audio e url output_dir title = (False, None)"
  by (cases title) (simp_all add: download_video_def download_audio_def)

text \<open>
  Claim C7. The download operations never let an exception of the engine propagate: when
  the engine raises (and likewise when the listing of the directory raises, or when the title
  is not a string, so that the sanitizer raises), the result is the failure result
  \<open>(False, None)\<close>; and every result with \<open>success = False\<close> has no file path.
\<close>

theorem download_exceptions_caught:
  "((\<forall>ydl_opts. ydl_download e ydl_opts url \<noteq> None) \<longrightarrow>
      download_video e url output_dir title = (False, None) \<and>
      download_audio e url output_dir title = (False, None))
   \<and> (listdir e output_dir = Inl err \<longrightarrow>
      download_video e url output_dir title = (False, None) \<and>
      download_audio e url output_dir title = (False, None))
   \<and> ((\<forall>t. title \<noteq> PStr t) \<longrightarrow>
      download_video e url output_dir title = (False, None) \<and>
      download_audio e url output_dir title = (False, None))
   \<and> (fst (download_video e url output_dir title) = False \<longrightarrow>
      snd (download_video e url output_dir title) = None)
   \<and> (fst (download_audio e url output_dir title) = False \<longrightarrow>
      snd (download_audio e url output_dir title) = None)"
  using download_video_engine_raises [of e url output_dir title]
    download_audio_engine_raises [of e url output_dir title]
    download_video_listdir_raises [of e output_dir err url title]
    download_audio_listdir_raises [of e output_dir err url title]
    download_not_a_string [of title e url output_dir]
    download_video_result [of e url output_dir title]
    download_audio_result [of e url output_dir title]
  by blast

theorem download_exceptions_caught_witness:
  "download_video failing_env (PStr ''https://youtu.be/abc'') ''/tmp/dl'' (PStr ''My Title'') = (False, None)
   \<and> download_audio failing_env (PStr ''https://youtu.be/abc'') ''/tmp/dl'' (PStr ''My Title'') = (False, None)"
proof -
  have "\<forall>ydl_opts. ydl_download failing_env ydl_opts (PStr ''https://youtu.be/abc'') \<noteq> None"
    by (simp add: failing_env_def)
  with download_exceptions_caught [of failing_env "PStr ''https://youtu.be/abc''" "''/tmp/dl''"
      "PStr ''My Title''"]
  show ?thesis by blast
qed

section \<open>Properties of output discovery\<close>

lemma find_first_entry: "find P files = Some f \<Longrightarrow> first_entry P files f"
proof (induction files)
  case Nil
  then show ?case by simp
next
  case (Cons a files)
  show ?case
  proof (cases "P a")
    case True
    with Cons.prems have "f = a" by simp
    with True have "a # files = [] @ f # files \<and> P f \<and> \<not> list_ex P []" by simp
    then show ?thesis unfolding first_entry_def by blast
  next
    case False
    with Cons.prems have "find P files = Some f" by simp
    then obtain before after where b: "files = before @ f # after" "P f" "\<not> list_ex P before"
      using Cons.IH unfolding first_entry_def by blast
    with False have "a # files = (a # before) @ f # after \<and> P f \<and> \<not> list_ex P (a # before)"
      by simp
    then show ?thesis unfolding first_entry_def by blast
  qed
qed

lemma find_exists: "list_ex P files \<Longrightarrow> \<exists>f. find P files = Some f"
  by (induction files) auto

lemma find_none: "\<not> list_ex P files \<Longrightarrow> find P files = None"
  by (induction files) auto

lemma first_entry_exists: "list_ex P files \<Longrightarrow> \<exists>f. find P files = Some f \<and> first_entry P files f"
  using find_exists find_first_entry by blast

lemma download_video_listing:
  assumes "\<forall>ydl_opts. ydl_download e ydl_opts url = None" and "listdir e output_dir = Inr files"
  shows "download_video e url output_dir (PStr t) =
    (case find (\<lambda>file. startswith file (sanitize_filename t)) files of
       Some file \<Rightarrow> (True, Some (path_join output_dir file))
     | None \<Rightarrow> (False, None))"
  using assms by (simp add: download_video_def Let_def)

lemma download_audio_listing:
  assumes "\<forall>ydl_opts. ydl_download e ydl_opts url = None" and "listdir e output_dir = Inr files"
  shows "download_audio e url output_dir (PStr t) =
    (case (if which_ffmpeg e \<noteq> None \<and> which_ffmpeg e \<noteq> Some []
           then find (\<lambda>file. startswith file (sanitize_filename t) \<and> endswith file ''.mp3'') files
           else None) of
       Some file \<Rightarrow> (True, Some (path_join output_dir file))
     | None \<Rightarrow>
        (case find (\<lambda>file. startswith file (sanitize_filename t) \<and>
                      list_ex (\<lambda>ext. endswith file ext) audio_extensions) files of
           Some file \<Rightarrow> (True, Some (path_join output_dir file))
         | None \<Rightarrow>
            (case find (\<lambda>file. list_ex (\<lambda>ext. endswith file ext) audio_extensions) files of
               Some file \<Rightarrow> (True, Some (path_join output_dir file))
             | None \<Rightarrow> (False, None))))"
  using assms by (simp add: download_audio_def Let_def)

lemma download_video_found:
  assumes "\<forall>ydl_opts. ydl_download e ydl_opts url = None" and "listdir e output_dir = Inr files"
    and "list_ex (titled (sanitize_filename t)) files"
  shows "\<exists>f. first_entry (titled (sanitize_filename t)) files f \<and>
    download_video e url output_dir (PStr t) = (True, Some (path_join output_dir f))"
proof -
  obtain f where f: "find (titled (sanitize_filename t)) files = Some f"
      "first_entry (titled (sanitize_filename t)) files f"
    using first_entry_exists [OF assms(3)] by blast
  have "(\<lambda>file. startswith file (sanitize_filename t)) = titled (sanitize_filename t)"
    by (simp add: titled_def fun_eq_iff)
  with f(1) have "download_video e url output_dir (PStr t) = (True, Some (path_join output_dir f))"
    by (simp add: download_video_listing [OF assms(1,2)])
  with f(2) show ?thesis by blast
qed

lemma download_video_not_found:
  assumes "\<forall>ydl_opts. ydl_download e ydl_opts url = None" and "listdir e output_dir = Inr files"
    and "\<not> list_ex (titled (sanitize_filename t)) files"
  shows "download_video e url output_dir (PStr t) = (False, None)"
proof -
  have "(\<lambda>file. startswith file (sanitize_filename t)) = titled (sanitize_filename t)"
    by (simp add: titled_def fun_eq_iff)
  with find_none [OF assms(3)] show ?thesis
    by (simp add: download_video_listing [OF assms(1,2)])
qed

lemma audio_tiers:
  "(\<lambda>file. startswith file s \<and> endswith file ''.mp3'') = (\<lambda>f. titled s f \<and> endswith f ''.mp3'')"
  "(\<lambda>file. startswith file s \<and> list_ex (\<lambda>ext. endswith file ext) audio_extensions) =
     (\<lambda>f. titled s f \<and> audio_file f)"
  "(\<lambda>file. list_ex (\<lambda>ext. endswith file ext) audio_extensions) = audio_file"
  by (simp_all add: titled_def audio_file_def fun_eq_iff)

lemma download_audio_tiers:
  assumes "\<forall>ydl_opts. ydl_download e ydl_opts url = None" and "listdir e output_dir = Inr files"
  shows "download_audio e url output_dir (PStr t) =
    (case (if transcoding e
           then find (\<lambda>f. titled (sanitize_filename t) f \<and> endswith f ''.mp3'') files
           else None) of
       Some file \<Rightarrow> (True, Some (path_join output_dir file))
     | None \<Rightarrow>
        (case find (\<lambda>f. titled (sanitize_filename t) f \<and> audio_file f) files of
           Some file \<Rightarrow> (True, Some (path_join output_dir file))
         | None \<Rightarrow>
            (case find audio_file files of
               Some file \<Rightarrow> (True, Some (path_join output_dir file))
             | None \<Rightarrow> (False, None))))"
  unfolding download_audio_listing [OF assms] audio_tiers transcoding_def ..

lemma mp3_is_audio: "endswith f ''.mp3'' \<Longrightarrow> audio_file f"
  by (simp add: audio_file_def audio_extensions_def)

lemma download_audio_tier1:
  assumes "\<forall>ydl_opts. ydl_download e ydl_opts url = None" and "listdir e output_dir = Inr files"
    and "transcoding e"
    and "list_ex (\<lambda>f. titled (sanitize_filename t) f \<and> endswith f ''.mp3'') files"
  shows "\<exists>f. first_entry (\<lambda>f. titled (sanitize_filename t) f \<and> endswith f ''.mp3'') files f \<and>
    download_audio e url output_dir (PStr t) = (True, Some (path_join output_dir f))"
proof -
  obtain f where f: "find (\<lambda>f. titled (sanitize_filename t) f \<and> endswith f ''.mp3'') files = Some f"
      "first_entry (\<lambda>f. titled (sanitize_filename t) f \<and> endswith f ''.mp3'') files f"
    using first_entry_exists [OF assms(4)] by blast
  from f(1) assms(3)
  have "download_audio e url output_dir (PStr t) = (True, Some (path_join output_dir f))"
    by (simp add: download_audio_tiers [OF assms(1,2)])
  with f(2) show ?thesis by blast
qed

lemma download_audio_tier2:
  assumes "\<forall>ydl_opts. ydl_download e ydl_opts url = None" and "listdir e output_dir = Inr files"
    and "\<not> (transcoding e \<and>
            list_ex (\<lambda>f. titled (sanitize_filename t) f \<and> endswith f ''.mp3'') files)"
    and "list_ex (\<lambda>f. titled (sanitize_filename t) f \<and> audio_file f) files"
  shows "\<exists>f. first_entry (\<lambda>f. titled (sanitize_filename t) f \<and> audio_file f) files f \<and>
    download_audio e url output_dir (PStr t) = (True, Some (path_join output_dir f))"
proof -
  obtain f where f: "find (\<lambda>f. titled (sanitize_filename t) f \<and> audio_file f) files = Some f"
      "first_entry (\<lambda>f. titled (sanitize_filename t) f \<and> audio_file f) files f"
    using first_entry_exists [OF assms(4)] by blast
  have "(if transcoding e
         then find (\<lambda>f. titled (sanitize_filename t) f \<and> endswith f ''.mp3'') files
         else None) = None"
    using assms(3) find_none by auto
  with f(1)
  have "download_audio e url output_dir (PStr t) = (True, Some (path_join output_dir f))"
    by (simp add: download_audio_tiers [OF assms(1,2)])
  with f(2) show ?thesis by blast
qed

lemma no_tier2_no_tier1:
  assumes "\<not> list_ex (\<lambda>f. titled s f \<and> audio_file f) files"
  shows "\<not> list_ex (\<lambda>f. titled s f \<and> endswith f ''.mp3'') files"
  using assms mp3_is_audio by (auto simp: list_ex_iff)

lemma download_audio_tier3:
  assumes "\<forall>ydl_opts. ydl_download e ydl_opts url = None" and "listdir e output_dir = Inr files"
    and "\<not> list_ex (\<lambda>f. titled (sanitize_filename t) f \<and> audio_file f) files"
    and "list_ex audio_file files"
  shows "\<exists>f. first_entry audio_file files f \<and>
    download_audio e url output_dir (PStr t) = (True, Some (path_join output_dir f))"
proof -
  obtain f where f: "find audio_file files = Some f" "first_entry audio_file files f"
    using first_entry_exists [OF assms(4)] by blast
  have "find (\<lambda>f. titled (sanitize_filename t) f \<and> endswith f ''.mp3'') files = None"
    using no_tier2_no_tier1 [OF assms(3)] by (rule find_none)
  with f(1) find_none [OF assms(3)]
  have "download_audio e url output_dir (PStr t) = (True, Some (path_join output_dir f))"
    by (simp add: download_audio_tiers [OF assms(1,2)])
  with f(2) show ?thesis by blast
qed

lemma download_audio_not_found:
  assumes "\<forall>ydl_opts. ydl_download e ydl_opts url = None" and "listdir e output_dir = Inr files"
    and "\<not> list_ex audio_file files"
  shows "download_audio e url output_dir (PStr t) = (False, None)"
proof -
  have n2: "\<not> list_ex (\<lambda>f. titled (sanitize_filename t) f \<and> audio_file f) files"
    using assms(3) by (auto simp: list_ex_iff)
  have "find (\<lambda>f. titled (sanitize_filename t) f \<and> endswith f ''.mp3'') files = None"
    using no_tier2_no_tier1 [OF n2] by (rule find_none)
  with find_none [OF n2] find_none [OF assms(3)] show ?thesis
    by (simp add: download_audio_tiers [OF assms(1,2)])
qed

lemma startswith_iff: "startswith f s \<longleftrightarrow> (\<exists>rest. f = s @ rest)"
proof
  assume "startswith f s"
  then have "f = s @ drop (length s) f"
    unfolding startswith_def by (metis append_take_drop_id)
  then show "\<exists>rest. f = s @ rest" ..
next
  assume "\<exists>rest. f = s @ rest"
  then show "startswith f s" by (auto simp: startswith_def)
qed

lemma endswith_iff: "endswith f e \<longleftrightarrow> (\<exists>stem. f = stem @ e)"
proof
  assume "endswith f e"
  then have "f = take (length f - length e) f @ e"
    unfolding endswith_def by (metis append_take_drop_id)
  then show "\<exists>stem. f = stem @ e" ..
next
  assume "\<exists>stem. f = stem @ e"
  then show "endswith f e" by (auto simp: endswith_def)
qed

lemma titled_iff: "titled s f \<longleftrightarrow> (\<exists>rest. f = s @ rest)"
  unfolding titled_def by (rule startswith_iff)

lemma audio_file_iff:
  "audio_file f \<longleftrightarrow>
     (\<exists>stem. f = stem @ ''.mp3'') \<or> (\<exists>stem. f = stem @ ''.m4a'') \<or>
     (\<exists>stem. f = stem @ ''.webm'') \<or> (\<exists>stem. f = stem @ ''.ogg'') \<or>
     (\<exists>stem. f = stem @ ''.aac'') \<or> (\<exists>stem. f = stem @ ''.opus'')"
  by (simp only: audio_file_def audio_extensions_def list_ex_Cons_iff list_ex_Nil_iff endswith_iff
      simp_thms)

lemma transcoding_iff: "transcoding e \<longleftrightarrow> (\<exists>p. which_ffmpeg e = Some p \<and> p \<noteq> [])"
  unfolding transcoding_def by (cases "which_ffmpeg e") simp_all

lemma path_join_iff:
  "path_join a b =
     (if (\<exists>r. b = ''/'' @ r) then b
      else if a = [] \<or> (\<exists>p. a = p @ ''/'') then a @ b
      else a @ ''/'' @ b)"
  unfolding path_join_def startswith_iff endswith_iff ..

lemma output_discovery_tiers:
  assumes "\<forall>ydl_opts. ydl_download e ydl_opts url = None"
    and "listdir e output_dir = Inr files"
  shows
    "(list_ex (titled (sanitize_filename t)) files \<longrightarrow>
        (\<exists>f. first_entry (titled (sanitize_filename t)) files f \<and>
             download_video e url output_dir (PStr t) = (True, Some (path_join output_dir f))))
     \<and> (\<not> list_ex (titled (sanitize_filename t)) files \<longrightarrow>
        download_video e url output_dir (PStr t) = (False, None))
     \<and> (transcoding e \<and>
        list_ex (\<lambda>f. titled (sanitize_filename t) f \<and> endswith f ''.mp3'') files \<longrightarrow>
        (\<exists>f. first_entry (\<lambda>f. titled (sanitize_filename t) f \<and> endswith f ''.mp3'') files f \<and>
             download_audio e url output_dir (PStr t) = (True, Some (path_join output_dir f))))
     \<and> (\<not> (transcoding e \<and>
           list_ex (\<lambda>f. titled (sanitize_filename t) f \<and> endswith f ''.mp3'') files) \<and>
        list_ex (\<lambda>f. titled (sanitize_filename t) f \<and> audio_file f) files \<longrightarrow>
        (\<exists>f. first_entry (\<lambda>f. titled (sanitize_filename t) f \<and> audio_file f) files f \<and>
             download_audio e url output_dir (PStr t) = (True, Some (path_join output_dir f))))
     \<and> (\<not> list_ex (\<lambda>f. titled (sanitize_filename t) f \<and> audio_file f) files \<and>
        list_ex audio_file files \<longrightarrow>
        (\<exists>f. first_entry audio_file files f \<and>
             download_audio e url output_dir (PStr t) = (True, Some (path_join output_dir f))))
     \<and> (\<not> list_ex audio_file files \<longrightarrow>
        download_audio e url output_dir (PStr t) = (False, None))"
  using download_video_found [OF assms, of t] download_video_not_found [OF assms, of t]
    download_audio_tier1 [OF assms, of t] download_audio_tier2 [OF assms, of t]
    download_audio_tier3 [OF assms, of t] download_audio_not_found [OF assms, of t]
  by blast

text \<open>
  Claim C2, as amended. After a download whose engine call returned, and for every listing
  of the scratch directory: for the audio kind, discovery returns the first entry in this
  order of preference: (1) when transcoding is used, an entry that starts with the safe title
  and ends with \<^verbatim>\<open>'.mp3'\<close>; (2) an entry that starts with the safe title and ends with one of the
  known audio extensions; (3) any entry that ends with one of them. For the video kind,
  discovery returns the first entry that starts with the safe title, whatever its extension.
  When no entry matches (so for an empty directory) the result is \<open>(False, None)\<close>. The
  tests are written out: what it is to start with the title, to end with an extension, which
  the six audio extensions are, when transcoding is used, which entry is the first, and how
  the returned path is joined.
\<close>

theorem output_discovery:
  assumes "\<forall>ydl_opts. ydl_download e ydl_opts url = None"
    and "listdir e output_dir = Inr files"
  shows
    "((list_ex (titled (sanitize_filename t)) files \<longrightarrow>
        (\<exists>f. first_entry (titled (sanitize_filename t)) files f \<and>
             download_video e url output_dir (PStr t) = (True, Some (path_join output_dir f))))
     \<and> (\<not> list_ex (titled (sanitize_filename t)) files \<longrightarrow>
        download_video e url output_dir (PStr t) = (False, None))
     \<and> (transcoding e \<and>
        list_ex (\<lambda>f. titled (sanitize_filename t) f \<and> endswith f ''.mp3'') files \<longrightarrow>
        (\<exists>f. first_entry (\<lambda>f. titled (sanitize_filename t) f \<and> endswith f ''.mp3'') files f \<and>
             download_audio e url output_dir (PStr t) = (True, Some (path_join output_dir f))))
     \<and> (\<not> (transcoding e \<and>
           list_ex (\<lambda>f. titled (sanitize_filename t) f \<and> endswith f ''.mp3'') files) \<and>
        list_ex (\<lambda>f. titled (sanitize_filename t) f \<and> audio_file f) files \<longrightarrow>
        (\<exists>f. first_entry (\<lambda>f. titled (sanitize_filename t) f \<and> audio_file f) files f \<and>
             download_audio e url output_dir (PStr t) = (True, Some (path_join output_dir f))))
     \<and> (\<not> list_ex (\<lambda>f. titled (sanitize_filename t) f \<and> audio_file f) files \<and>
        list_ex audio_file files \<longrightarrow>
        (\<exists>f. first_entry audio_file files f \<and>
             download_audio e url output_dir (PStr t) = (True, Some (path_join output_dir f))))
     \<and> (\<not> list_ex audio_file files \<longrightarrow>
        download_audio e url output_dir (PStr t) = (False, None)))
     \<and> (titled s f \<longleftrightarrow> (\<exists>rest. f = s @ rest))
     \<and> (endswith f ''.mp3'' \<longleftrightarrow> (\<exists>stem. f = stem @ ''.mp3''))
     \<and> (audio_file f \<longleftrightarrow>
          (\<exists>stem. f = stem @ ''.mp3'') \<or> (\<exists>stem. f = stem @ ''.m4a'') \<or>
          (\<exists>stem. f = stem @ ''.webm'') \<or> (\<exists>stem. f = stem @ ''.ogg'') \<or>
          (\<exists>stem. f = stem @ ''.aac'') \<or> (\<exists>stem. f = stem @ ''.opus''))
     \<and> (transcoding e \<longleftrightarrow> (\<exists>p. which_ffmpeg e = Some p \<and> p \<noteq> []))
     \<and> (first_entry P files f \<longleftrightarrow>
          (\<exists>before after. files = before @ f # after \<and> P f \<and> \<not> list_ex P before))
     \<and> path_join a b =
          (if (\<exists>r. b = ''/'' @ r) then b
           else if a = [] \<or> (\<exists>p. a = p @ ''/'') then a @ b
           else a @ ''/'' @ b)"
proof (intro conjI)
  note tiers = output_discovery_tiers [OF assms, of t]
  show "list_ex (titled (sanitize_filename t)) files \<longrightarrow>
        (\<exists>f. first_entry (titled (sanitize_filename t)) files f \<and>
             download_video e url output_dir (PStr t) = (True, Some (path_join output_dir f)))"
    using tiers by (elim conjE)
  show "\<not> list_ex (titled (sanitize_filename t)) files \<longrightarrow>
        download_video e url output_dir (PStr t) = (False, None)"
    using tiers by (elim conjE)
  show "transcoding e \<and>
        list_ex (\<lambda>f. titled (sanitize_filename t) f \<and> endswith f ''.mp3'') files \<longrightarrow>
        (\<exists>f. first_entry (\<lambda>f. titled (sanitize_filename t) f \<and> endswith f ''.mp3'') files f \<and>
             download_audio e url output_dir (PStr t) = (True, Some (path_join output_dir f)))"
    using tiers by (elim conjE)
  show "\<not> (transcoding e \<and>
           list_ex (\<lambda>f. titled (sanitize_filename t) f \<and> endswith f ''.mp3'') files) \<and>
        list_ex (\<lambda>f. titled (sanitize_filename t) f \<and> audio_file f) files \<longrightarrow>
        (\<exists>f. first_entry (\<lambda>f. titled (sanitize_filename t) f \<and> audio_file f) files f \<and>
             download_audio e url output_dir (PStr t) = (True, Some (path_join output_dir f)))"
    using tiers by (elim conjE)
  show "\<not> list_ex (\<lambda>f. titled (sanitize_filename t) f \<and> audio_file f) files \<and>
        list_ex audio_file files \<longrightarrow>
        (\<exists>f. first_entry audio_file files f \<and>
             download_audio e url output_dir (PStr t) = (True, Some (path_join output_dir f)))"
    using tiers by (elim conjE)
  show "\<not> list_ex audio_file files \<longrightarrow>
        download_audio e url output_dir (PStr t) = (False, None)"
    using tiers by (elim conjE)
  show "titled s f \<longleftrightarrow> (\<exists>rest. f = s @ rest)"
    by (rule titled_iff)
  show "endswith f ''.mp3'' \<longleftrightarrow> (\<exists>stem. f = stem @ ''.mp3'')"
    by (rule endswith_iff)
  show "audio_file f \<longleftrightarrow>
          (\<exists>stem. f = stem @ ''.mp3'') \<or> (\<exists>stem. f = stem @ ''.m4a'') \<or>
          (\<exists>stem. f = stem @ ''.webm'') \<or> (\<exists>stem. f = stem @ ''.ogg'') \<or>
          (\<exists>stem. f = stem @ ''.aac'') \<or> (\<exists>stem. f = stem @ ''.opus'')"
    by (rule audio_file_iff)
  show "transcoding e \<longleftrightarrow> (\<exists>p. which_ffmpeg e = Some p \<and> p \<noteq> [])"
    by (rule transcoding_iff)
  show "first_entry P files f \<longleftrightarrow>
          (\<exists>before after. files = before @ f # after \<and> P f \<and> \<not> list_ex P before)"
    by (rule first_entry_def)
  show "path_join a b =
          (if (\<exists>r. b = ''/'' @ r) then b
           else if a = [] \<or> (\<exists>p. a = p @ ''/'') then a @ b
           else a @ ''/'' @ b)"
    by (rule path_join_iff)
qed

lemma sanitize_My_Title: "sanitize_filename ''My_Title'' = ''My_Title''"
  by (simp add: sanitize_filename_eq invalid_chars_def strip_def isspace_def)

lemma demo_env_facts:
  "\<forall>ydl_opts. ydl_download demo_env ydl_opts url = None"
  "listdir demo_env d = Inr [''cover.jpg'', ''My_Title.webm'', ''My_Title.mp3'']"
  "transcoding demo_env"
  by (simp_all add: demo_env_def transcoding_def)

lemma demo_listing_tiers:
  "list_ex (titled ''My_Title'') [''cover.jpg'', ''My_Title.webm'', ''My_Title.mp3'']"
  "list_ex (\<lambda>f. titled ''My_Title'' f \<and> endswith f ''.mp3'')
     [''cover.jpg'', ''My_Title.webm'', ''My_Title.mp3'']"
  by (simp_all add: titled_def startswith_def endswith_def)

theorem output_discovery_witness:
  "(\<exists>f. first_entry (titled ''My_Title'') [''cover.jpg'', ''My_Title.webm'', ''My_Title.mp3''] f \<and>
        download_video demo_env (PStr ''https://youtu.be/abc'') ''/tmp/dl'' (PStr ''My_Title'') =
          (True, Some (path_join ''/tmp/dl'' f)))
   \<and> (\<exists>f. first_entry (\<lambda>f. titled ''My_Title'' f \<and> endswith f ''.mp3'')
          [''cover.jpg'', ''My_Title.webm'', ''My_Title.mp3''] f \<and>
        download_audio demo_env (PStr ''https://youtu.be/abc'') ''/tmp/dl'' (PStr ''My_Title'') =
          (True, Some (path_join ''/tmp/dl'' f)))"
  using output_discovery [OF demo_env_facts(1) [of "PStr ''https://youtu.be/abc''"]
      demo_env_facts(2) [of "''/tmp/dl''"], where t = "''My_Title''", THEN conjunct1]
    demo_env_facts(3) demo_listing_tiers
  unfolding sanitize_My_Title by blast

text \<open>
  The outcomes on the example directory: the audio download with the transcoder takes the
  \<^verbatim>\<open>.mp3\<close> entry, the video download the first entry with the title.
\<close>

lemma demo_env_outcomes:
  "download_audio demo_env (PStr ''https://youtu.be/abc'') ''/tmp/dl'' (PStr ''My_Title'') =
     (True, Some ''/tmp/dl/My_Title.mp3'')"
  "download_video demo_env (PStr ''https://youtu.be/abc'') ''/tmp/dl'' (PStr ''My_Title'') =
     (True, Some ''/tmp/dl/My_Title.webm'')"
  by (simp_all add: download_audio_tiers [OF demo_env_facts(1,2)]
      download_video_listing [OF demo_env_facts(1,2)] demo_env_facts(3) sanitize_My_Title
      titled_def startswith_def endswith_def path_join_def)

text \<open>
  The claim as stated fails for both kinds. For the video kind, an entry that starts with the
  safe title is returned although it ends with no audio or video extension, where the
  preference order of the specification finds nothing. For the audio kind, an entry that
  starts with the safe title and ends with a video extension is not found, where tier (2) of
  the specification finds it: the source looks for its six audio extensions only.
\<close>

theorem output_discovery_counterexample:
  "download_video text_file_env (PStr ''https://youtu.be/abc'') ''/tmp/dl'' (PStr ''My_Title'') =
     (True, Some ''/tmp/dl/My_Title.txt'')
   \<and> spec_discovery False None (sanitize_filename ''My_Title'') [''My_Title.txt''] = None
   \<and> download_audio video_container_env (PStr ''https://youtu.be/abc'') ''/tmp/dl''
       (PStr ''My_Title'') = (False, None)
   \<and> spec_discovery True None (sanitize_filename ''My_Title'') [''My_Title.mp4''] =
       Some ''My_Title.mp4''"
proof -
  have "\<forall>ydl_opts. ydl_download text_file_env ydl_opts (PStr ''https://youtu.be/abc'') = None"
    and "listdir text_file_env ''/tmp/dl'' = Inr [''My_Title.txt'']"
    by (simp_all add: text_file_env_def demo_env_def)
  then have 1: "download_video text_file_env (PStr ''https://youtu.be/abc'') ''/tmp/dl'' (PStr ''My_Title'') =
     (True, Some ''/tmp/dl/My_Title.txt'')"
    by (simp add: download_video_listing sanitize_My_Title startswith_def endswith_def path_join_def)
  have 2: "spec_discovery False None ''My_Title'' [''My_Title.txt''] = None"
    by (simp add: spec_discovery_def media_extensions_def audio_extensions_def startswith_def
        endswith_def)
  have "\<forall>ydl_opts. ydl_download video_container_env ydl_opts (PStr ''https://youtu.be/abc'') = None"
    and "listdir video_container_env ''/tmp/dl'' = Inr [''My_Title.mp4'']"
    and "\<not> transcoding video_container_env"
    by (simp_all add: video_container_env_def demo_env_def transcoding_def)
  then have 3: "download_audio video_container_env (PStr ''https://youtu.be/abc'') ''/tmp/dl''
       (PStr ''My_Title'') = (False, None)"
    by (simp add: download_audio_tiers sanitize_My_Title titled_def audio_file_def
        audio_extensions_def startswith_def endswith_def)
  have 4: "spec_discovery True None ''My_Title'' [''My_Title.mp4''] = Some ''My_Title.mp4''"
    by (simp add: spec_discovery_def media_extensions_def audio_extensions_def startswith_def
        endswith_def)
  from 1 2 3 4 show ?thesis by (simp only: sanitize_My_Title)
qed

section \<open>Properties of the conversation flow\<close>

lemma handle_callback_keeps: "fst (handle_callback e ud data) = ud"
  by (simp add: handle_callback_def split: option.splits)

text \<open>
  Claim C9. A format-choice callback that arrives while the session holds no pending metadata
  (the key is absent, or the stored dictionary is empty) is answered with the message that the
  video information was not found; the handler returns, leaving the session as it was.
\<close>

theorem handle_callback_without_session:
  "list_ex ((=) data) [''download_mp4'', ''download_mp3''] \<and>
   (ud ''video_info'' = None \<or> ud ''video_info'' = Some []) \<longrightarrow>
   handle_callback e ud data = (ud, [Answer, EditText MsgInfoNotFound])"
  by (auto simp: handle_callback_def)

theorem handle_callback_without_session_witness:
  "handle_callback demo_env Map.empty ''download_mp4'' = (Map.empty, [Answer, EditText MsgInfoNotFound])"
proof -
  have "list_ex ((=) ''download_mp4'') [''download_mp4'', ''download_mp3''] \<and>
    ((Map.empty :: user_data) ''video_info'' = None \<or> (Map.empty :: user_data) ''video_info'' = Some [])"
    by simp
  with handle_callback_without_session [of "''download_mp4''" Map.empty demo_env]
  show ?thesis by blast
qed

lemma try_strategies_record:
  "snd (try_strategies ex url cs) = Some m \<Longrightarrow> \<exists>info. m = video_info_of url info"
proof (induction cs)
  case Nil
  then show ?case by simp
next
  case (Cons c cs)
  show ?case
  proof (cases "succeeds ex url c")
    case True
    then obtain info where "ex c url = Inr (Some info)" by (auto simp: succeeds_iff)
    with Cons.prems show ?thesis by (auto simp: try_strategies_hit simp del: try_strategies.simps)
  next
    case False
    with Cons show ?thesis by (simp add: try_strategies_skip del: try_strategies.simps)
  qed
qed

lemma get_video_info_nonempty: "snd (get_video_info ex url) = Some m \<Longrightarrow> m \<noteq> []"
proof -
  assume "snd (get_video_info ex url) = Some m"
  then obtain info where "m = video_info_of url info"
    unfolding get_video_info_def using try_strategies_record by blast
  then show ?thesis by (simp add: video_info_of_def)
qed

lemma resolved_like_count:
  assumes "snd (get_video_info ex url) = Some m"
  shows "map_of m ''like_count'' = Some (dict_get m ''like_count'' (PInt 0))"
proof -
  from assms obtain info where "m = video_info_of url info"
    unfolding get_video_info_def using try_strategies_record by blast
  then show ?thesis by (simp add: video_info_of_lookup dict_get_def)
qed

lemma process_youtube_url_gated:
  assumes "process_youtube_url ex threshold ud url = Inr (ud', acts)"
  shows "(\<exists>m likes. snd (get_video_info ex url) = Some m \<and>
            dict_get m ''like_count'' (PInt 0) = PInt likes \<and> threshold \<le> likes \<and>
            ud' = ud(''video_info'' \<mapsto> m))
       \<or> (ud' = ud \<and>
           (snd (get_video_info ex url) = None \<or>
            (\<exists>m likes. snd (get_video_info ex url) = Some m \<and>
               dict_get m ''like_count'' (PInt 0) = PInt likes \<and> likes < threshold)))"
proof (cases "snd (get_video_info ex url)")
  case None
  with assms show ?thesis by (simp add: process_youtube_url_def)
next
  case (Some m)
  then have ne: "m \<noteq> []" by (rule get_video_info_nonempty)
  define d where "d = format_duration (dict_get m ''duration'' (PInt 0))"
  define l where "l = dict_get m ''like_count'' (PInt 0)"
  from assms Some ne have p:
    "(case d of
        Inl err \<Rightarrow> Inl err
      | Inr duration \<Rightarrow>
          (case py_lt l threshold of
             Inl err \<Rightarrow> Inl err
           | Inr True \<Rightarrow>
               Inr (ud, [ReplyText MsgChecking,
                         EditText (MsgBelowThreshold (dict_get m ''title'' (PStr ''Unknown''))
                           (dict_get m ''uploader'' (PStr ''Unknown'')) l threshold)])
           | Inr False \<Rightarrow>
               Inr (ud(''video_info'' \<mapsto> m),
                    [ReplyText MsgChecking,
                     EditTextWithKeyboard (MsgApproved (dict_get m ''title'' (PStr ''Unknown''))
                        (dict_get m ''uploader'' (PStr ''Unknown'')) duration l)
                       [''download_mp4'', ''download_mp3'', ''cancel'']]))) = Inr (ud', acts)"
    unfolding d_def l_def by (simp add: process_youtube_url_def Let_def)
  then obtain duration where dur: "d = Inr duration" by (cases d) auto
  show ?thesis
  proof (cases l)
    case PNone
    with p dur show ?thesis by simp
  next
    case (PStr s)
    with p dur show ?thesis by simp
  next
    case (PInt likes)
    show ?thesis
    proof (cases "likes < threshold")
      case True
      with p dur PInt have "ud' = ud" by simp
      with True PInt Some show ?thesis unfolding l_def by blast
    next
      case False
      with p dur PInt have "ud' = ud(''video_info'' \<mapsto> m)" by simp
      moreover from False have "threshold \<le> likes" by simp
      ultimately show ?thesis using PInt Some unfolding l_def by blast
    qed
  qed
qed

text \<open>
  Claim C8, as amended. Neither a format choice nor a cancel clears the pending record:
  handling a callback leaves the session dictionary as it was. The session has the one slot
  \<^verbatim>\<open>'video_info'\<close>, and it is written only when a URL passes the gate: when the handling of a
  URL returns, either the URL was resolved to a record whose like count is at least the
  threshold and the slot now holds that record (whatever it held before), or the dictionary is
  as it was, and then the resolution had failed or the like count was below the threshold. So
  a session never holds more than one pending record.
\<close>

theorem session_record_kept:
  "fst (handle_callback e ud data) = ud
   \<and> (process_youtube_url ex threshold ud url = Inr (ud', acts) \<longrightarrow>
        (\<exists>m likes. snd (get_video_info ex url) = Some m \<and>
            map_of m ''like_count'' = Some (PInt likes) \<and> threshold \<le> likes \<and>
            ud' = ud(''video_info'' \<mapsto> m))
        \<or> (ud' = ud \<and>
            (snd (get_video_info ex url) = None \<or>
             (\<exists>m likes. snd (get_video_info ex url) = Some m \<and>
                map_of m ''like_count'' = Some (PInt likes) \<and> likes < threshold))))"
proof (intro conjI impI)
  show "fst (handle_callback e ud data) = ud" by (rule handle_callback_keeps)
next
  assume "process_youtube_url ex threshold ud url = Inr (ud', acts)"
  note g = process_youtube_url_gated [OF this]
  have r: "map_of m ''like_count'' = Some (PInt likes)"
    if "snd (get_video_info ex url) = Some m" "dict_get m ''like_count'' (PInt 0) = PInt likes"
    for m likes
    using resolved_like_count [OF that(1)] that(2) by simp
  from g r show "(\<exists>m likes. snd (get_video_info ex url) = Some m \<and>
            map_of m ''like_count'' = Some (PInt likes) \<and> threshold \<le> likes \<and>
            ud' = ud(''video_info'' \<mapsto> m))
        \<or> (ud' = ud \<and>
            (snd (get_video_info ex url) = None \<or>
             (\<exists>m likes. snd (get_video_info ex url) = Some m \<and>
                map_of m ''like_count'' = Some (PInt likes) \<and> likes < threshold)))"
    by blast
qed

lemma demo_engine_approved:
  "\<exists>acts. process_youtube_url demo_engine 10 Map.empty ''https://youtu.be/abc'' =
     Inr ([''video_info'' \<mapsto> video_info_of ''https://youtu.be/abc'' example_info], acts)"
proof -
  have "\<exists>acts. process_youtube_url demo_engine 10 Map.empty ''https://youtu.be/abc'' =
     Inr (if (10::int) \<le> 25 then [''video_info'' \<mapsto> video_info_of ''https://youtu.be/abc'' example_info]
          else Map.empty, acts)"
    by (rule process_youtube_url_gate [where d = 125])
      (simp_all add: demo_engine_def example_info_def)
  then show ?thesis by simp
qed

lemma demo_engine_denied:
  "\<exists>acts. process_youtube_url demo_engine 1000 [''video_info'' \<mapsto> null_likes_info]
       ''https://youtu.be/abc'' = Inr ([''video_info'' \<mapsto> null_likes_info], acts)"
proof -
  have "\<exists>acts. process_youtube_url demo_engine 1000 [''video_info'' \<mapsto> null_likes_info]
       ''https://youtu.be/abc'' =
     Inr (if (1000::int) \<le> 25
          then [''video_info'' \<mapsto> null_likes_info,
                ''video_info'' \<mapsto> video_info_of ''https://youtu.be/abc'' example_info]
          else [''video_info'' \<mapsto> null_likes_info], acts)"
    by (rule process_youtube_url_gate [where d = 125])
      (simp_all add: demo_engine_def example_info_def)
  then show ?thesis by simp
qed

theorem session_record_kept_witness:
  "fst (handle_callback demo_env [''video_info'' \<mapsto> example_info] ''cancel'') =
     [''video_info'' \<mapsto> example_info]
   \<and> (\<exists>acts m likes. process_youtube_url demo_engine 10 Map.empty ''https://youtu.be/abc'' =
          Inr ([''video_info'' \<mapsto> m], acts) \<and>
        snd (get_video_info demo_engine ''https://youtu.be/abc'') = Some m \<and>
        map_of m ''like_count'' = Some (PInt likes) \<and> 10 \<le> likes)"
proof -
  obtain acts where a: "process_youtube_url demo_engine 10 Map.empty ''https://youtu.be/abc'' =
     Inr ([''video_info'' \<mapsto> video_info_of ''https://youtu.be/abc'' example_info], acts)"
    using demo_engine_approved by blast
  note t1 = session_record_kept [where e = demo_env and ud = "[''video_info'' \<mapsto> example_info]"
      and data = "''cancel''"]
  note t2 = session_record_kept [where ex = demo_engine and threshold = 10 and ud = Map.empty
      and url = "''https://youtu.be/abc''" and acts = acts
      and ud' = "[''video_info'' \<mapsto> video_info_of ''https://youtu.be/abc'' example_info]"]
  have ne: "[''video_info'' \<mapsto> video_info_of ''https://youtu.be/abc'' example_info] \<noteq> Map.empty"
    by simp
  from t2 a ne obtain m likes where
    "snd (get_video_info demo_engine ''https://youtu.be/abc'') = Some m"
    "map_of m ''like_count'' = Some (PInt likes)" "10 \<le> likes"
    "[''video_info'' \<mapsto> video_info_of ''https://youtu.be/abc'' example_info] = [''video_info'' \<mapsto> m]"
    by blast
  with a t1 show ?thesis by metis
qed

text \<open>
  The claim as stated fails: after a cancel, and after a format choice, the session still
  holds the record.
\<close>

theorem session_record_counterexample:
  "fst (handle_callback demo_env [''video_info'' \<mapsto> example_info] ''cancel'') ''video_info'' =
     Some example_info
   \<and> fst (handle_callback demo_env [''video_info'' \<mapsto> example_info] ''download_mp3'') ''video_info'' =
     Some example_info"
  by (simp add: handle_callback_def example_info_def)

end
